theory Spec2Isabelle
  imports Main
begin

section \<open>Data model of uclient-example.c\<close>

text \<open>
  The program is a single-shot download client.  Its own state is the set of file-scope
  variables of \<^verbatim>\<open>uclient-example.c\<close> (lines 35--41) and the function-local static
  \<^verbatim>\<open>retries\<close> of \<^verbatim>\<open>example_header_done\<close> (line 99).  Everything the program calls
  outside this file (the uclient library, uloop, libc) is a collaborator: each call is
  appended to a trace, in program order, and the parts of the collaborators' state the
  program reads back are kept in the state record.
\<close>

type_synonym byte = char

text \<open>The \<^verbatim>\<open>open(2)\<close> flags used by \<^verbatim>\<open>open_output_file\<close>; \<^verbatim>\<open>flags |= F\<close> is \<open>insert F flags\<close>.\<close>

datatype oflag = O_WRONLY | O_CREAT | O_EXCL

text \<open>The two fields of \<^verbatim>\<open>struct uclient_url\<close> the program reads.\<close>

record url =
  host :: string
  location :: string

text \<open>
  The error codes of \<^verbatim>\<open>uclient.h\<close> that \<^verbatim>\<open>handle_uclient_error\<close> names; every other
  value of its \<^verbatim>\<open>int code\<close> argument reaches the \<^verbatim>\<open>default\<close> label.
\<close>

datatype uclient_error_code =
    UCLIENT_ERROR_CONNECT
  | UCLIENT_ERROR_SSL_INVALID_CERT
  | UCLIENT_ERROR_SSL_CN_MISMATCH
  | UCLIENT_ERROR_OTHER int

text \<open>
  The session object \<^verbatim>\<open>struct uclient *cl\<close>: the fields the program reads, the
  redirect target the protocol engine found in the current response (if any), and the
  body bytes the engine currently holds for \<^verbatim>\<open>uclient_read\<close>.
\<close>

record uclient =
  cl_url :: url
  status_code :: int
  meta :: "(string \<times> string) list"
  redirect_to :: "url option"
  pending :: "byte list"
  remote_addr :: "string \<times> int"

text \<open>What is printed on standard error: the format string's arguments are kept.\<close>

datatype diag =
    Msg_redirected string string
  | Msg_headers int "(string \<times> string) list"
  | Msg_cannot_open
  | Msg_connecting string string int
  | Msg_connection_error string bool
  | Msg_usage string
  | Msg_no_ssl string
  | Msg_alloc_failed

text \<open>
  One entry per call that leaves the file, plus one entry per assignment to the
  file-scope variable \<^verbatim>\<open>error_ret\<close> (so that assignments can be counted).
\<close>

datatype action =
    Stderr diag
  | Sys_open string "oflag set" int
  | Sys_write int "byte list"
  | Sys_close int
  | Uclient_read "byte list"
  | Uclient_rerequest url
  | Uclient_disconnect
  | Uloop_end
  | Uloop_init
  | Uloop_done
  | Uclient_new string
  | Uclient_set_ssl_ctx bool
  | Uclient_connect
  | Uclient_set_request_type string
  | Uclient_request
  | Uclient_free
  | Ssl_add_ca string
  | Ssl_context_free
  | Assign_error_ret int

text \<open>
  The part of the operating system \<^verbatim>\<open>open\<close> and \<^verbatim>\<open>close\<close> depend on: which paths
  exist, which paths cannot be opened for writing (permissions, a directory, ...), and
  the descriptors in use.
\<close>

record filesys =
  existing :: "string set"
  unwritable :: "string set"
  open_fds :: "int list"

record st =
  quiet :: bool
  verify :: bool
  output_file :: "string option"
  output_fd :: int
  error_ret :: int
  retries :: int
  ssl_ctx :: bool
  os :: filesys
  uc :: uclient
  running :: bool
  trace :: "action list"

definition STDOUT_FILENO :: int where
  "STDOUT_FILENO = 1"

definition emit :: "action \<Rightarrow> st \<Rightarrow> st" where
  "emit a s = s\<lparr>trace := trace s @ [a]\<rparr>"

text \<open>\<^verbatim>\<open>if (!quiet) fprintf(stderr, ...)\<close>\<close>

definition say :: "diag \<Rightarrow> st \<Rightarrow> st" where
  "say d s = (if \<not> quiet s then emit (Stderr d) s else s)"

text \<open>\<^verbatim>\<open>error_ret = v\<close>\<close>

definition set_error_ret :: "int \<Rightarrow> st \<Rightarrow> st" where
  "set_error_ret v s = emit (Assign_error_ret v) (s\<lparr>error_ret := v\<rparr>)"

section \<open>The operating system: open, close, write\<close>

text \<open>POSIX hands out the lowest descriptor not in use.\<close>

fun alloc_fd :: "int list \<Rightarrow> nat \<Rightarrow> int \<Rightarrow> int" where
  "alloc_fd fds 0 i = i"
| "alloc_fd fds (Suc n) i = (if i \<in> set fds then alloc_fd fds n (i + 1) else i)"

definition lowest_fd :: "int list \<Rightarrow> int" where
  "lowest_fd fds = alloc_fd fds (length fds) 0"

text \<open>
  \<^verbatim>\<open>open(path, flags, 0644)\<close>: fails (\<open>-1\<close>) on an empty or unwritable path, on an
  existing path when both \<^verbatim>\<open>O_CREAT\<close> and \<^verbatim>\<open>O_EXCL\<close> are given, and on a missing path
  without \<^verbatim>\<open>O_CREAT\<close>; otherwise it returns a fresh descriptor, creating the file if
  it was missing.
\<close>

definition os_open :: "filesys \<Rightarrow> string \<Rightarrow> oflag set \<Rightarrow> int \<times> filesys" where
  "os_open f path flags =
     (if path = [] \<or> path \<in> unwritable f then (- 1, f)
      else if path \<in> existing f then
        (if O_CREAT \<in> flags \<and> O_EXCL \<in> flags then (- 1, f)
         else (lowest_fd (open_fds f), f\<lparr>open_fds := lowest_fd (open_fds f) # open_fds f\<rparr>))
      else if O_CREAT \<in> flags then
        (lowest_fd (open_fds f),
         f\<lparr>existing := insert path (existing f),
           open_fds := lowest_fd (open_fds f) # open_fds f\<rparr>)
      else (- 1, f))"

definition sys_open :: "string \<Rightarrow> oflag set \<Rightarrow> st \<Rightarrow> int \<times> st" where
  "sys_open path flags s =
     (case os_open (os s) path flags of
        (r, f) \<Rightarrow> (r, emit (Sys_open path flags r) (s\<lparr>os := f\<rparr>)))"

definition sys_close :: "int \<Rightarrow> st \<Rightarrow> st" where
  "sys_close fd s =
     emit (Sys_close fd) (s\<lparr>os := (os s)\<lparr>open_fds := removeAll fd (open_fds (os s))\<rparr>\<rparr>)"

text \<open>\<^verbatim>\<open>write(fd, buf, len)\<close>; the program ignores its result.\<close>

definition sys_write :: "int \<Rightarrow> byte list \<Rightarrow> st \<Rightarrow> st" where
  "sys_write fd buf s = emit (Sys_write fd buf) s"

section \<open>open\_output\_file (lines 43--85)\<close>

text \<open>\<^verbatim>\<open>strcspn(s, reject)\<close>: length of the longest prefix free of the rejected characters.\<close>

definition strcspn :: "string \<Rightarrow> string \<Rightarrow> nat" where
  "strcspn s reject = length (takeWhile (\<lambda>c. c \<notin> set reject) s)"

text \<open>
  Lines 65--66, \<^verbatim>\<open>while (len > 0 && path[len - 1] == '/') len--;\<close>: the argument is
  \<^verbatim>\<open>len\<close>, the result its final value.
\<close>

fun strip_slashes :: "string \<Rightarrow> nat \<Rightarrow> nat" where
  "strip_slashes path 0 = 0"
| "strip_slashes path (Suc n) =
     (if path ! n = CHR ''/'' then strip_slashes path n else Suc n)"

text \<open>
  Lines 68--73: \<^verbatim>\<open>str\<close> walks down from \<^verbatim>\<open>path + len - 1\<close> until it points at a slash
  or falls below \<^verbatim>\<open>path\<close>, then \<^verbatim>\<open>str++\<close>.  The argument is \<^verbatim>\<open>str - path + 1\<close> during the
  walk; the result is \<^verbatim>\<open>str - path\<close> after the increment.
\<close>

fun segment_start :: "string \<Rightarrow> nat \<Rightarrow> nat" where
  "segment_start path 0 = 0"
| "segment_start path (Suc n) =
     (if path ! n = CHR ''/'' then Suc n else segment_start path n)"

text \<open>Lines 64--82: the file name derived from the URL's location.\<close>

definition derived_filename :: "string \<Rightarrow> string" where
  "derived_filename path =
     (let len = strip_slashes path (strcspn path '';&'');
          str = segment_start path len;
          len2 = len - str
      in if len2 > 0 then take len2 (drop str path) else ''index.html'')"

definition open_output_file :: "string \<Rightarrow> bool \<Rightarrow> st \<Rightarrow> int \<times> st" where
  "open_output_file path create s =
     (let flags = (if create then insert O_CREAT {O_WRONLY} else {O_WRONLY}) in
      case output_file s of
        Some f \<Rightarrow>
          if f = ''-'' then (STDOUT_FILENO, s)
          else sys_open f flags s
      | None \<Rightarrow>
          sys_open (derived_filename path)
            (if create then insert O_EXCL flags else flags) s)"

section \<open>The callbacks (lines 87--213)\<close>

definition request_done :: "st \<Rightarrow> st" where
  "request_done s =
     (let s1 = (if output_fd s \<ge> 0
                then (sys_close (output_fd s) s)\<lparr>output_fd := - 1\<rparr>
                else s);
          s2 = emit Uclient_disconnect s1
      in (emit Uloop_end s2)\<lparr>running := False\<rparr>)"

text \<open>
  Modelled from the spec: \<^verbatim>\<open>uclient_http_redirect\<close> lives in the protocol engine
  (\<^verbatim>\<open>uclient-http.c\<close>), which is not among the sources.  Spec 4.1: when the response
  is a redirect and a redirect target is present, the session URL is updated to the
  target and the request is re-issued; the call reports whether it did so.
\<close>

definition uclient_http_redirect :: "st \<Rightarrow> bool \<times> st" where
  "uclient_http_redirect s =
     (case redirect_to (uc s) of
        None \<Rightarrow> (False, s)
      | Some u \<Rightarrow> (True, emit (Uclient_rerequest u) (s\<lparr>uc := (uc s)\<lparr>cl_url := u\<rparr>\<rparr>)))"

text \<open>Lines 112--136: what \<^verbatim>\<open>example_header_done\<close> does with a response it does not follow.\<close>

definition header_final :: "st \<Rightarrow> st" where
  "header_final s =
     (let s1 = s\<lparr>retries := 0\<rparr>;
          s2 = say (Msg_headers (status_code (uc s1)) (meta (uc s1))) s1
      in if status_code (uc s2) = 204 \<or> status_code (uc s2) = 200 then
           (case open_output_file (location (cl_url (uc s2))) True s2 of
              (fd, s3) \<Rightarrow>
                if fd < 0 then
                  request_done (set_error_ret 3 (say Msg_cannot_open (s3\<lparr>output_fd := fd\<rparr>)))
                else s3\<lparr>output_fd := fd\<rparr>)
         else set_error_ret 8 (request_done s2))"

text \<open>
  Lines 97--137.  \<^verbatim>\<open>retries < 10 && uclient_http_redirect(cl)\<close> short-circuits: the
  engine is asked to redirect only while the counter is below 10.
\<close>

definition example_header_done :: "st \<Rightarrow> st" where
  "example_header_done s =
     (case (if retries s < 10 then uclient_http_redirect s else (False, s)) of
        (followed, s1) \<Rightarrow>
          if followed then
            (let s2 = say (Msg_redirected (location (cl_url (uc s1))) (host (cl_url (uc s1)))) s1
             in s2\<lparr>retries := retries s2 + 1\<rparr>)
          else header_final s1)"

text \<open>
  Modelled from the spec: \<^verbatim>\<open>uclient_read\<close> belongs to the uclient library, which is not
  among the sources.  Spec 2: the read-available-bytes primitive; it hands over at most
  \<open>n\<close> of the bytes the engine holds and reports how many.
\<close>

definition uclient_read :: "nat \<Rightarrow> st \<Rightarrow> (nat \<times> byte list) \<times> st" where
  "uclient_read n s =
     (let buf = take n (pending (uc s))
      in ((length buf, buf),
          emit (Uclient_read buf) (s\<lparr>uc := (uc s)\<lparr>pending := drop n (pending (uc s))\<rparr>\<rparr>)))"

text \<open>Lines 147--153, the \<^verbatim>\<open>while (1)\<close> loop over a 256-byte buffer.\<close>

function drain :: "st \<Rightarrow> st" where
  "drain s =
     (case uclient_read 256 s of
        ((len, buf), s1) \<Rightarrow>
          if len = 0 then s1 else drain (sys_write (output_fd s1) buf s1))"
  by pat_completeness auto
termination
  by (relation "measure (\<lambda>s. length (pending (uc s)))")
     (auto simp: uclient_read_def sys_write_def emit_def Let_def)

definition example_read_data :: "st \<Rightarrow> st" where
  "example_read_data s = (if output_fd s < 0 then s else drain s)"

definition example_eof :: "st \<Rightarrow> st" where
  "example_eof s = request_done s"

text \<open>Lines 181--213; the result pairs \<^verbatim>\<open>type\<close> with \<^verbatim>\<open>ignore\<close> after the switch.\<close>

definition handle_uclient_error :: "uclient_error_code \<Rightarrow> st \<Rightarrow> st" where
  "handle_uclient_error code s =
     (case (case code of
              UCLIENT_ERROR_CONNECT \<Rightarrow>
                (''Connection failed'', False, set_error_ret 4 s)
            | UCLIENT_ERROR_SSL_INVALID_CERT \<Rightarrow>
                (''Invalid SSL certificate'', \<not> verify s, set_error_ret 5 s)
            | UCLIENT_ERROR_SSL_CN_MISMATCH \<Rightarrow>
                (''Server hostname does not match SSL certificate'', \<not> verify s,
                 set_error_ret 5 s)
            | UCLIENT_ERROR_OTHER n \<Rightarrow>
                (''Unknown error'', False, set_error_ret 1 s)) of
        (type, ignore, s1) \<Rightarrow>
          (let s2 = say (Msg_connection_error type ignore) s1
           in if ignore then set_error_ret 0 s2 else request_done s2))"

section \<open>The event loop and main (lines 156--174, 222--334)\<close>

text \<open>
  The notifications the protocol engine delivers through \<^verbatim>\<open>struct uclient_cb\<close>
  (lines 215--220).  A header notification carries the response's status, header table
  and redirect target; a data notification carries the bytes that became available.
\<close>

datatype event =
    Header_done int "(string \<times> string) list" "url option"
  | Data_read "byte list"
  | Data_eof
  | Error uclient_error_code

fun deliver :: "event \<Rightarrow> st \<Rightarrow> st" where
  "deliver (Header_done code hdrs redir) s =
     example_header_done
       (s\<lparr>uc := (uc s)\<lparr>status_code := code, meta := hdrs, redirect_to := redir\<rparr>\<rparr>)"
| "deliver (Data_read bs) s =
     example_read_data (s\<lparr>uc := (uc s)\<lparr>pending := pending (uc s) @ bs\<rparr>\<rparr>)"
| "deliver Data_eof s = example_eof s"
| "deliver (Error code) s = handle_uclient_error code s"

text \<open>
  \<^verbatim>\<open>uloop_run\<close>: notifications are dispatched one at a time until \<^verbatim>\<open>uloop_end\<close> has been
  called; what the engine would have delivered after that is never seen.
\<close>

fun uloop_run :: "event list \<Rightarrow> st \<Rightarrow> st" where
  "uloop_run [] s = s"
| "uloop_run (e # es) s = (if running s then uloop_run es (deliver e s) else s)"

text \<open>
  What \<^verbatim>\<open>getopt_long(argc, argv, "qO:", longopts, &longopt_idx)\<close> returns, one entry per
  call until it returns \<open>-1\<close>: \<^verbatim>\<open>'q'\<close>, \<^verbatim>\<open>'O'\<close> with \<^verbatim>\<open>optarg\<close>, \<open>0\<close> with one of the two
  long options, or \<^verbatim>\<open>'?'\<close> for anything it does not know.
\<close>

datatype getopt_result =
    Opt_q
  | Opt_O string
  | Opt_no_check_certificate
  | Opt_ca_certificate string
  | Opt_unknown

text \<open>
  What the program's surroundings decide: \<^verbatim>\<open>argv[0]\<close>, whether \<^verbatim>\<open>init_ustream_ssl\<close>
  (lines 237--250) ended with a context in \<^verbatim>\<open>ssl_ctx\<close>, the file system, what
  \<^verbatim>\<open>uclient_new\<close> returns for a URL (\<open>None\<close> for \<^verbatim>\<open>NULL\<close>), and the notifications the
  protocol engine has for the loop.
\<close>

record env =
  progname :: string
  ssl_loaded :: bool
  fs0 :: filesys
  uclient_new :: "string \<Rightarrow> uclient option"
  notifications :: "event list"

text \<open>
  The initialisers of lines 35--41 and 99.  \<^verbatim>\<open>cl\<close> is unassigned until \<^verbatim>\<open>uclient_new\<close>;
  the record holds an empty session object until then.
\<close>

definition startup :: "env \<Rightarrow> st" where
  "startup e =
     \<lparr>quiet = False, verify = True, output_file = None, output_fd = - 1, error_ret = 0,
      retries = 0, ssl_ctx = ssl_loaded e, os = fs0 e,
      uc = \<lparr>cl_url = \<lparr>host = [], location = []\<rparr>, status_code = 0, meta = [],
            redirect_to = None, pending = [], remote_addr = ([], 0)\<rparr>,
      running = True, trace = []\<rparr>"

definition usage :: "string \<Rightarrow> st \<Rightarrow> int \<times> st" where
  "usage p s = (1, emit (Stderr (Msg_usage p)) s)"

definition no_ssl :: "string \<Rightarrow> st \<Rightarrow> int \<times> st" where
  "no_ssl p s = (1, emit (Stderr (Msg_no_ssl p)) s)"

text \<open>
  Lines 278--302.  \<open>Inl\<close> is the state at a \<^verbatim>\<open>return usage(progname)\<close> inside the loop,
  \<open>Inr\<close> the state when \<^verbatim>\<open>getopt_long\<close> has returned \<open>-1\<close>.
\<close>

fun getopt_loop :: "getopt_result list \<Rightarrow> st \<Rightarrow> st + st" where
  "getopt_loop [] s = Inr s"
| "getopt_loop (Opt_no_check_certificate # r) s = getopt_loop r (s\<lparr>verify := False\<rparr>)"
| "getopt_loop (Opt_ca_certificate f # r) s =
     getopt_loop r (if ssl_ctx s then emit (Ssl_add_ca f) s else s)"
| "getopt_loop (Opt_O f # r) s = getopt_loop r (s\<lparr>output_file := Some f\<rparr>)"
| "getopt_loop (Opt_q # r) s = getopt_loop r (s\<lparr>quiet := True\<rparr>)"
| "getopt_loop (Opt_unknown # r) s = Inl s"

definition msg_connecting :: "st \<Rightarrow> st" where
  "msg_connecting s =
     (if quiet s then s
      else emit (Stderr (Msg_connecting (host (cl_url (uc s)))
                  (fst (remote_addr (uc s))) (snd (remote_addr (uc s))))) s)"

definition init_request :: "st \<Rightarrow> st" where
  "init_request s =
     emit Uclient_request
       (emit (Uclient_set_request_type ''GET'') (msg_connecting (emit Uclient_connect s)))"

text \<open>
  Lines 304--324 of \<^verbatim>\<open>main\<close>: from the argument count check to \<^verbatim>\<open>init_request\<close>.
  \<open>Inl\<close> is an early \<^verbatim>\<open>return\<close> with its value; \<open>Inr\<close> is the state in which the loop
  is entered.  \<^verbatim>\<open>strncmp(argv[0], "https", 5)\<close> is zero exactly when the first five
  characters are \<^verbatim>\<open>https\<close>.
\<close>

definition main_session :: "env \<Rightarrow> string list \<Rightarrow> st \<Rightarrow> (int \<times> st) + st" where
  "main_session e args s =
     (case args of
        [u] \<Rightarrow>
          if take 5 u = ''https'' \<and> \<not> ssl_ctx s then Inl (no_ssl (progname e) s)
          else
            (let s1 = emit (Uclient_new u) (emit Uloop_init s) in
             case uclient_new e u of
               None \<Rightarrow> Inl (1, emit (Stderr Msg_alloc_failed) s1)
             | Some c \<Rightarrow>
                 (let s2 = s1\<lparr>uc := c\<rparr>;
                      s3 = (if ssl_ctx s2 then emit (Uclient_set_ssl_ctx (verify s2)) s2
                            else s2)
                  in Inr (init_request s3)))
      | _ \<Rightarrow> Inl (usage (progname e) s))"

text \<open>Lines 271--324 of \<^verbatim>\<open>main\<close>: everything before \<^verbatim>\<open>uloop_run\<close>.\<close>

definition main_setup :: "env \<Rightarrow> getopt_result list \<Rightarrow> string list \<Rightarrow> (int \<times> st) + st" where
  "main_setup e opts args =
     (case getopt_loop opts (startup e) of
        Inl s \<Rightarrow> Inl (usage (progname e) s)
      | Inr s \<Rightarrow> main_session e args s)"

text \<open>
  How a run of \<^verbatim>\<open>main\<close> ends: it returns a value, or it is still inside \<^verbatim>\<open>uloop_run\<close>
  because the engine has nothing more to deliver and \<^verbatim>\<open>uloop_end\<close> was never called.
\<close>

datatype outcome = Exit int | Waiting

text \<open>Lines 326--333: after the loop.\<close>

definition main_finish :: "st \<Rightarrow> outcome \<times> st" where
  "main_finish s =
     (let s1 = emit Uclient_free (emit Uloop_done s);
          s2 = (if ssl_ctx s1 then emit Ssl_context_free s1 else s1)
      in (Exit (error_ret s2), s2))"

definition main :: "env \<Rightarrow> getopt_result list \<Rightarrow> string list \<Rightarrow> outcome \<times> st" where
  "main e opts args =
     (case main_setup e opts args of
        Inl (r, s) \<Rightarrow> (Exit r, s)
      | Inr s0 \<Rightarrow>
          (let s = uloop_run (notifications e) s0
           in if running s then (Waiting, s) else main_finish s))"

section \<open>Observations on a run\<close>

text \<open>The values assigned to \<^verbatim>\<open>error_ret\<close>, in order.\<close>

fun assignments :: "action list \<Rightarrow> int list" where
  "assignments [] = []"
| "assignments (Assign_error_ret v # r) = v # assignments r"
| "assignments (a # r) = assignments r"

text \<open>What was written, and to which descriptor.\<close>

fun sink_writes :: "action list \<Rightarrow> (int \<times> byte list) list" where
  "sink_writes [] = []"
| "sink_writes (Sys_write fd buf # r) = (fd, buf) # sink_writes r"
| "sink_writes (a # r) = sink_writes r"

text \<open>The bytes taken from the protocol engine.\<close>

fun pulled :: "action list \<Rightarrow> byte list" where
  "pulled [] = []"
| "pulled (Uclient_read buf # r) = buf @ pulled r"
| "pulled (a # r) = pulled r"

text \<open>The files \<^verbatim>\<open>open\<close> was called on.\<close>

fun opens :: "action list \<Rightarrow> string list" where
  "opens [] = []"
| "opens (Sys_open p fl r # rest) = p # opens rest"
| "opens (a # rest) = opens rest"

text \<open>The targets of followed redirects.\<close>

fun hops :: "action list \<Rightarrow> url list" where
  "hops [] = []"
| "hops (Uclient_rerequest u # r) = u # hops r"
| "hops (a # r) = hops r"

text \<open>Everything but the diagnostics.\<close>

fun silent :: "action list \<Rightarrow> action list" where
  "silent [] = []"
| "silent (Stderr d # r) = silent r"
| "silent (a # r) = a # silent r"

text \<open>A state as a run without diagnostics would show it.\<close>

definition obs :: "st \<Rightarrow> st" where
  "obs s = s\<lparr>quiet := True, trace := silent (trace s)\<rparr>"

text \<open>
  The calls one pass of the loop of lines 147--153 makes for a given descriptor and
  supply of bytes: a read and a write per chunk of at most 256 bytes, then the read that
  returns 0.
\<close>

function drain_log :: "int \<Rightarrow> byte list \<Rightarrow> action list" where
  "drain_log fd bs =
     (if bs = [] then [Uclient_read []]
      else Uclient_read (take 256 bs) # Sys_write fd (take 256 bs) # drain_log fd (drop 256 bs))"
  by pat_completeness auto
termination
  by (relation "measure (\<lambda>(fd, bs). length bs)") auto

text \<open>
  The protocol engine answers one request with one response: it delivers a header
  notification only while no sink is open, that is, before a response has been accepted
  for streaming (spec 4.1: headers are received in \<^verbatim>\<open>AwaitingHeaders\<close>, before
  \<^verbatim>\<open>StreamingBody\<close>).
\<close>

fun header_event :: "event \<Rightarrow> bool" where
  "header_event (Header_done code hdrs redir) = True"
| "header_event e = False"

fun protocol_ok :: "event list \<Rightarrow> st \<Rightarrow> bool" where
  "protocol_ok [] s = True"
| "protocol_ok (e # es) s =
     (if running s
      then (if header_event e then output_fd s < 0 else True) \<and> protocol_ok es (deliver e s)
      else True)"

section \<open>The specification's wording of the derived file name\<close>

text \<open>
  The recipe of spec 4.2 for a given set of delimiting characters: drop everything from
  the first delimiter on, strip trailing slashes, take the last path segment; an empty
  segment gives \<^verbatim>\<open>index.html\<close>.
\<close>

definition cut_name :: "string \<Rightarrow> string \<Rightarrow> string" where
  "cut_name delims path =
     (let p1 = takeWhile (\<lambda>c. c \<notin> set delims) path;
          p2 = rev (dropWhile (\<lambda>c. c = CHR ''/'') (rev p1));
          seg = rev (takeWhile (\<lambda>c. c \<noteq> CHR ''/'') (rev p2))
      in if seg = [] then ''index.html'' else seg)"

text \<open>
  Spec 4.2 speaks of query/fragment-delimiting characters: in a URL the query begins at
  \<^verbatim>\<open>?\<close> and the fragment at \<^verbatim>\<open>#\<close>.
\<close>

definition spec_filename :: "string \<Rightarrow> string" where
  "spec_filename path = cut_name ''?#'' path"

section \<open>Concrete inputs\<close>

text \<open>
  A file system in which \<^verbatim>\<open>result.bin\<close> and \<^verbatim>\<open>report.csv\<close> already exist, a session
  object as \<^verbatim>\<open>uclient_new\<close> would return it, and an environment without a secure
  transport library.
\<close>

definition demo_fs :: filesys where
  "demo_fs =
     \<lparr>existing = {''result.bin'', ''report.csv''}, unwritable = {''locked''},
      open_fds = [0, 1, 2]\<rparr>"

definition demo_client :: uclient where
  "demo_client =
     \<lparr>cl_url = \<lparr>host = ''example.org'', location = ''/a/b/data.bin''\<rparr>, status_code = 0,
      meta = [], redirect_to = None, pending = [], remote_addr = (''192.0.2.1'', 80)\<rparr>"

definition demo_env :: "event list \<Rightarrow> env" where
  "demo_env evs =
     \<lparr>progname = ''uclient-fetch'', ssl_loaded = False, fs0 = demo_fs,
      uclient_new = (\<lambda>u. Some demo_client), notifications = evs\<rparr>"

text \<open>A redirect target whose file name is free, and the URL given on the command line.\<close>

definition demo_target :: url where
  "demo_target = \<lparr>host = ''mirror.example.org'', location = ''/pub/data.bin''\<rparr>"

definition demo_url :: string where
  "demo_url = ''http://example.org/a/b/data.bin''"

text \<open>
  The state in which \<^verbatim>\<open>main\<close> enters the loop for \<open>demo_url\<close> in \<open>demo_env\<close>, with
  certificate validation on or off.
\<close>

definition demo_start :: "bool \<Rightarrow> st" where
  "demo_start chk =
     init_request
       ((emit (Uclient_new demo_url)
          (emit Uloop_init ((startup (demo_env []))\<lparr>verify := chk\<rparr>)))\<lparr>uc := demo_client\<rparr>)"


definition demo_redirects :: "nat \<Rightarrow> event list" where
  "demo_redirects n = replicate n (Header_done 302 [] (Some demo_target))"

section \<open>Basic facts\<close>

declare drain.simps [simp del]

declare drain_log.simps [simp del]

lemmas step_defs = emit_def say_def set_error_ret_def sys_close_def sys_write_def

lemma alloc_fd_ge: "i \<le> alloc_fd fds n i"
proof (induction n arbitrary: i)
  case 0
  show ?case by simp
next
  case (Suc n)
  have "i + 1 \<le> alloc_fd fds n (i + 1)" by (rule Suc.IH)
  then show ?case by simp
qed

lemma lowest_fd_nonneg: "0 \<le> lowest_fd fds"
  unfolding lowest_fd_def by (rule alloc_fd_ge)

lemma strcspn_le: "strcspn p r \<le> length p"
  by (simp add: strcspn_def length_takeWhile_le)

lemma strcspn_take: "take (strcspn p r) p = takeWhile (\<lambda>c. c \<notin> set r) p"
  unfolding strcspn_def by (rule takeWhile_eq_take [symmetric])

lemma strip_slashes_le: "strip_slashes p n \<le> n"
  by (induction n) auto

lemma strip_slashes_take:
  "n \<le> length p \<Longrightarrow>
   take (strip_slashes p n) p = rev (dropWhile (\<lambda>c. c = CHR ''/'') (rev (take n p)))"
proof (induction n)
  case 0
  show ?case by simp
next
  case (Suc n)
  then have lt: "n < length p" by simp
  have split: "take (Suc n) p = take n p @ [p ! n]"
    using lt by (rule take_Suc_conv_app_nth)
  show ?case
  proof (cases "p ! n = CHR ''/''")
    case True
    with Suc split show ?thesis by simp
  next
    case False
    with split show ?thesis by simp
  qed
qed

lemma segment_start_le: "segment_start p n \<le> n"
  by (induction n) auto

lemma segment_start_drop:
  "n \<le> length p \<Longrightarrow>
   drop (segment_start p n) (take n p) = rev (takeWhile (\<lambda>c. c \<noteq> CHR ''/'') (rev (take n p)))"
proof (induction n)
  case 0
  show ?case by simp
next
  case (Suc n)
  then have lt: "n < length p" by simp
  have split: "take (Suc n) p = take n p @ [p ! n]"
    using lt by (rule take_Suc_conv_app_nth)
  show ?case
  proof (cases "p ! n = CHR ''/''")
    case True
    with lt split show ?thesis by simp
  next
    case False
    have k: "segment_start p n \<le> length (take n p)"
      using lt segment_start_le [of p n] by simp
    have "drop (segment_start p n) (take n p @ [p ! n]) =
          drop (segment_start p n) (take n p) @ [p ! n]"
      using k by simp
    with False Suc lt split show ?thesis by simp
  qed
qed

lemma derived_filename_cut: "derived_filename path = cut_name '';&'' path"
proof -
  define m where "m = strcspn path '';&''"
  define n where "n = strip_slashes path m"
  define k where "k = segment_start path n"
  have m_le: "m \<le> length path" unfolding m_def by (rule strcspn_le)
  have n_le: "n \<le> length path"
    using strip_slashes_le [of path m] m_le unfolding n_def by simp
  have k_le: "k \<le> n" unfolding k_def by (rule segment_start_le)
  have p1: "take m path = takeWhile (\<lambda>c. c \<notin> set '';&'') path"
    unfolding m_def by (rule strcspn_take)
  have p2: "take n path = rev (dropWhile (\<lambda>c. c = CHR ''/'') (rev (take m path)))"
    unfolding n_def using m_le by (rule strip_slashes_take)
  have seg: "drop k (take n path) = rev (takeWhile (\<lambda>c. c \<noteq> CHR ''/'') (rev (take n path)))"
    unfolding k_def using n_le by (rule segment_start_drop)
  have cut: "take (n - k) (drop k path) = drop k (take n path)"
    by (simp add: drop_take)
  have len: "length (drop k (take n path)) = n - k"
    using n_le by simp
  have empty: "(0 < n - k) = (drop k (take n path) \<noteq> [])"
    using len by (metis length_greater_0_conv)
  have q2: "rev (dropWhile (\<lambda>c. c = CHR ''/'') (rev (takeWhile (\<lambda>c. c \<notin> set '';&'') path))) =
            take n path"
    using p1 p2 by simp
  have q3: "rev (takeWhile (\<lambda>c. c \<noteq> CHR ''/'') (rev (take n path))) = drop k (take n path)"
    using seg by simp
  have lhs: "derived_filename path =
        (if drop k (take n path) \<noteq> [] then drop k (take n path) else ''index.html'')"
    unfolding derived_filename_def Let_def m_def [symmetric] n_def [symmetric] k_def [symmetric]
    using cut empty by simp
  have rhs: "cut_name '';&'' path =
        (if drop k (take n path) = [] then ''index.html'' else drop k (take n path))"
    unfolding cut_name_def Let_def q2 q3 by (rule refl)
  show ?thesis unfolding lhs rhs by simp
qed

lemma cut_name_no_delims:
  assumes "\<forall>c \<in> set delims. c \<notin> set path"
  shows "cut_name delims path = cut_name [] path"
proof -
  have a: "takeWhile (\<lambda>c. c \<notin> set delims) path = path"
    using assms by (auto simp: takeWhile_eq_all_conv)
  have b: "takeWhile (\<lambda>c. c \<notin> set []) path = path"
    by simp
  show ?thesis unfolding cut_name_def a b by (rule refl)
qed

lemma derived_filename_plain:
  assumes "CHR ''?'' \<notin> set path" and "CHR ''#'' \<notin> set path"
    and "CHR '';'' \<notin> set path" and "CHR ''&'' \<notin> set path"
  shows "derived_filename path = spec_filename path"
proof -
  have "cut_name '';&'' path = cut_name [] path"
    using assms(3,4) by (intro cut_name_no_delims) simp
  moreover have "cut_name ''?#'' path = cut_name [] path"
    using assms(1,2) by (intro cut_name_no_delims) simp
  ultimately show ?thesis
    by (simp add: derived_filename_cut spec_filename_def)
qed

lemma df1: "derived_filename ''/a/b/report.csv'' = ''report.csv''"
  by code_simp

lemma df2: "derived_filename ''/a/b/'' = ''b''"
  by code_simp

lemma df3: "derived_filename ''/a/b'' = ''b''"
  by code_simp

lemma df4: "derived_filename ''/'' = ''index.html''"
  by code_simp



lemma os_open_excl:
  "O_CREAT \<in> fl \<Longrightarrow> O_EXCL \<in> fl \<Longrightarrow> p \<in> existing f \<Longrightarrow> fst (os_open f p fl) = - 1"
  by (simp add: os_open_def)

lemma os_open_overwrite:
  "O_EXCL \<notin> fl \<Longrightarrow> p \<noteq> [] \<Longrightarrow> p \<notin> unwritable f \<Longrightarrow> p \<in> existing f \<Longrightarrow>
   0 \<le> fst (os_open f p fl)"
  by (simp add: os_open_def lowest_fd_nonneg)

lemma os_open_create:
  "O_CREAT \<in> fl \<Longrightarrow> p \<noteq> [] \<Longrightarrow> p \<notin> unwritable f \<Longrightarrow> p \<notin> existing f \<Longrightarrow>
   0 \<le> fst (os_open f p fl) \<and> p \<in> existing (snd (os_open f p fl))"
  by (simp add: os_open_def lowest_fd_nonneg)

lemma fst_sys_open: "fst (sys_open p fl s) = fst (os_open (os s) p fl)"
  by (simp add: sys_open_def split: prod.splits)

lemma os_sys_open: "os (snd (sys_open p fl s)) = snd (os_open (os s) p fl)"
  by (simp add: sys_open_def emit_def split: prod.splits)

lemma open_output_file_derived:
  "output_file s = None \<Longrightarrow>
   open_output_file path True s =
     sys_open (derived_filename path) {O_EXCL, O_CREAT, O_WRONLY} s"
  by (simp add: open_output_file_def)

lemma open_output_file_explicit:
  "output_file s = Some f \<Longrightarrow> f \<noteq> ''-'' \<Longrightarrow>
   open_output_file path True s = sys_open f {O_CREAT, O_WRONLY} s"
  by (simp add: open_output_file_def)

lemma open_output_file_stdout:
  "output_file s = Some ''-'' \<Longrightarrow> open_output_file path create s = (STDOUT_FILENO, s)"
  by (simp add: open_output_file_def)

lemma assignments_append: "assignments (xs @ ys) = assignments xs @ assignments ys"
  by (induction xs rule: assignments.induct) simp_all

lemma sink_writes_append: "sink_writes (xs @ ys) = sink_writes xs @ sink_writes ys"
  by (induction xs rule: sink_writes.induct) simp_all

lemma pulled_append: "pulled (xs @ ys) = pulled xs @ pulled ys"
  by (induction xs rule: pulled.induct) simp_all

lemma opens_append: "opens (xs @ ys) = opens xs @ opens ys"
  by (induction xs rule: opens.induct) simp_all

lemma hops_append: "hops (xs @ ys) = hops xs @ hops ys"
  by (induction xs rule: hops.induct) simp_all

lemma silent_append: "silent (xs @ ys) = silent xs @ silent ys"
  by (induction xs rule: silent.induct) simp_all

lemmas proj_append = assignments_append sink_writes_append pulled_append opens_append
  hops_append silent_append

lemma drain_log_assignments: "assignments (drain_log fd bs) = []"
  by (induction fd bs rule: drain_log.induct) (subst drain_log.simps, simp)

lemma drain_log_hops: "hops (drain_log fd bs) = []"
  by (induction fd bs rule: drain_log.induct) (subst drain_log.simps, simp)

lemma drain_log_opens: "opens (drain_log fd bs) = []"
  by (induction fd bs rule: drain_log.induct) (subst drain_log.simps, simp)

lemma drain_log_silent: "silent (drain_log fd bs) = drain_log fd bs"
  by (induction fd bs rule: drain_log.induct) (subst (1 2) drain_log.simps, simp)

lemma drain_eq:
  "drain s = s\<lparr>uc := (uc s)\<lparr>pending := []\<rparr>,
               trace := trace s @ drain_log (output_fd s) (pending (uc s))\<rparr>"
proof (induction s rule: drain.induct)
  case (1 s)
  show ?case
  proof (cases "pending (uc s) = []")
    case True
    then show ?thesis
      by (subst drain.simps, subst drain_log.simps)
         (simp add: uclient_read_def emit_def Let_def)
  next
    case False
    let ?s1 = "snd (uclient_read 256 s)"
    let ?buf = "take 256 (pending (uc s))"
    have len: "length ?buf \<noteq> 0" using False by simp
    have ih: "drain (sys_write (output_fd ?s1) ?buf ?s1) =
          (sys_write (output_fd ?s1) ?buf ?s1)
            \<lparr>uc := (uc (sys_write (output_fd ?s1) ?buf ?s1))\<lparr>pending := []\<rparr>,
             trace := trace (sys_write (output_fd ?s1) ?buf ?s1) @
               drain_log (output_fd (sys_write (output_fd ?s1) ?buf ?s1))
                 (pending (uc (sys_write (output_fd ?s1) ?buf ?s1)))\<rparr>"
      by (rule "1.IH" [of "fst (uclient_read 256 s)" ?s1 "length ?buf" ?buf])
         (use len in \<open>simp_all add: uclient_read_def Let_def\<close>)
    show ?thesis
      apply (subst drain.simps)
      apply (subst drain_log.simps)
      using False ih
      apply (simp add: uclient_read_def emit_def Let_def sys_write_def)
      done
  qed
qed


lemma example_read_data_eq:
  "example_read_data s =
     (if output_fd s < 0 then s
      else s\<lparr>uc := (uc s)\<lparr>pending := []\<rparr>,
             trace := trace s @ drain_log (output_fd s) (pending (uc s))\<rparr>)"
  by (simp add: example_read_data_def drain_eq)

lemma sys_open_eq:
  "sys_open p fl s =
     (fst (os_open (os s) p fl),
      s\<lparr>os := snd (os_open (os s) p fl),
        trace := trace s @ [Sys_open p fl (fst (os_open (os s) p fl))]\<rparr>)"
  by (simp add: sys_open_def emit_def split_beta)

lemmas cb_defs = example_header_done_def header_final_def uclient_http_redirect_def
  open_output_file_def sys_open_eq request_done_def example_read_data_eq example_eof_def
  handle_uclient_error_def step_defs Let_def STDOUT_FILENO_def

lemma deliver_config:
  "quiet (deliver e s) = quiet s \<and> verify (deliver e s) = verify s
   \<and> output_file (deliver e s) = output_file s \<and> ssl_ctx (deliver e s) = ssl_ctx s"
  by (cases e) (auto simp: cb_defs split: option.splits uclient_error_code.splits)


lemma deliver_retries:
  "0 \<le> retries s \<Longrightarrow> retries s \<le> 10 \<Longrightarrow>
   0 \<le> retries (deliver e s) \<and> retries (deliver e s) \<le> 10"
  by (cases e) (auto simp: cb_defs split: option.splits uclient_error_code.splits if_splits)

lemma deliver_no_sink_io:
  "output_fd s < 0 \<Longrightarrow>
   sink_writes (trace (deliver e s)) = sink_writes (trace s)
   \<and> pulled (trace (deliver e s)) = pulled (trace s)"
  by (cases e)
     (auto simp: cb_defs proj_append split: option.splits uclient_error_code.splits if_splits)

lemma deliver_opens_sink:
  "output_fd s < 0 \<Longrightarrow> 0 \<le> output_fd (deliver e s) \<Longrightarrow>
   \<exists>hdrs redir. e = Header_done 200 hdrs redir \<or> e = Header_done 204 hdrs redir"
  by (cases e)
     (auto simp: cb_defs split: option.splits uclient_error_code.splits if_splits)



lemma uloop_run_stopped: "\<not> running s \<Longrightarrow> uloop_run es s = s"
  by (cases es) simp_all


lemma uloop_run_invariant:
  assumes "I s" and step: "\<And>e s. I s \<Longrightarrow> running s \<Longrightarrow> I (deliver e s)"
  shows "I (uloop_run es s)"
  using assms(1)
proof (induction es arbitrary: s)
  case Nil
  then show ?case by simp
next
  case (Cons e es)
  show ?case
  proof (cases "running s")
    case True
    from Cons.prems True have "I (deliver e s)" by (rule step)
    then have "I (uloop_run es (deliver e s))" by (rule Cons.IH)
    with True show ?thesis by simp
  next
    case False
    with Cons.prems show ?thesis by simp
  qed
qed

lemma uloop_run_config:
  "quiet (uloop_run es s) = quiet s \<and> verify (uloop_run es s) = verify s
   \<and> output_file (uloop_run es s) = output_file s \<and> ssl_ctx (uloop_run es s) = ssl_ctx s"
  by (rule uloop_run_invariant
        [where I = "\<lambda>t. quiet t = quiet s \<and> verify t = verify s
           \<and> output_file t = output_file s \<and> ssl_ctx t = ssl_ctx s"])
     (simp_all add: deliver_config)


lemma uloop_run_retries:
  assumes "0 \<le> retries s" and "retries s \<le> 10"
  shows "0 \<le> retries (uloop_run es s) \<and> retries (uloop_run es s) \<le> 10"
  by (rule uloop_run_invariant [where I = "\<lambda>t. 0 \<le> retries t \<and> retries t \<le> 10"])
     (use assms in \<open>auto dest: deliver_retries\<close>)


text \<open>What \<^verbatim>\<open>main\<close> has established when it enters the loop.\<close>

lemma getopt_loop_frame:
  "getopt_loop opts s = Inr s' \<or> getopt_loop opts s = Inl s' \<Longrightarrow>
   running s' = running s \<and> error_ret s' = error_ret s \<and> output_fd s' = output_fd s
   \<and> retries s' = retries s \<and> ssl_ctx s' = ssl_ctx s \<and> os s' = os s
   \<and> assignments (trace s') = assignments (trace s)
   \<and> sink_writes (trace s') = sink_writes (trace s)
   \<and> pulled (trace s') = pulled (trace s)
   \<and> hops (trace s') = hops (trace s)
   \<and> opens (trace s') = opens (trace s)"
  by (induction opts s rule: getopt_loop.induct) (auto simp: emit_def proj_append)

lemma getopt_loop_verify:
  "getopt_loop opts s = Inr s' \<Longrightarrow>
   verify s' = (verify s \<and> Opt_no_check_certificate \<notin> set opts)"
  by (induction opts s rule: getopt_loop.induct) (auto simp: emit_def)

lemma getopt_loop_silent:
  "getopt_loop opts s = Inr s' \<or> getopt_loop opts s = Inl s' \<Longrightarrow> \<not> ssl_ctx s \<Longrightarrow>
   silent (trace s') = silent (trace s)"
  by (induction opts s rule: getopt_loop.induct) (auto simp: emit_def)

lemma main_session_fresh:
  assumes "main_session e args s = Inr s0"
  shows "running s0 = running s \<and> error_ret s0 = error_ret s \<and> output_fd s0 = output_fd s
   \<and> retries s0 = retries s \<and> ssl_ctx s0 = ssl_ctx s \<and> os s0 = os s \<and> verify s0 = verify s
   \<and> assignments (trace s0) = assignments (trace s)
   \<and> sink_writes (trace s0) = sink_writes (trace s)
   \<and> pulled (trace s0) = pulled (trace s)
   \<and> hops (trace s0) = hops (trace s)
   \<and> opens (trace s0) = opens (trace s)"
  using assms
  by (auto simp: main_session_def init_request_def msg_connecting_def emit_def proj_append
        usage_def no_ssl_def Let_def
      split: list.splits option.splits if_splits)

lemma main_setup_fresh:
  assumes "main_setup e opts args = Inr s0"
  shows "running s0 \<and> error_ret s0 = 0 \<and> output_fd s0 = - 1 \<and> retries s0 = 0
   \<and> ssl_ctx s0 = ssl_loaded e \<and> os s0 = fs0 e
   \<and> verify s0 = (Opt_no_check_certificate \<notin> set opts)
   \<and> assignments (trace s0) = [] \<and> sink_writes (trace s0) = [] \<and> pulled (trace s0) = []
   \<and> hops (trace s0) = [] \<and> opens (trace s0) = []"
proof -
  from assms obtain s where g: "getopt_loop opts (startup e) = Inr s"
    and m: "main_session e args s = Inr s0"
    by (auto simp: main_setup_def split: sum.splits)
  from g have "getopt_loop opts (startup e) = Inr s \<or> getopt_loop opts (startup e) = Inl s"
    by simp
  note a = getopt_loop_frame [OF this]
  note b = getopt_loop_verify [OF g]
  note c = main_session_fresh [OF m]
  from a b c show ?thesis by (simp add: startup_def)
qed

lemma uloop_run_first_open:
  assumes "output_fd s < 0"
    and "pulled (trace (uloop_run es s)) \<noteq> pulled (trace s)
         \<or> sink_writes (trace (uloop_run es s)) \<noteq> sink_writes (trace s)"
  shows "\<exists>es1 code hdrs redir es2.
           es = es1 @ Header_done code hdrs redir # es2 \<and> (code = 200 \<or> code = 204)
           \<and> 0 \<le> output_fd (uloop_run (es1 @ [Header_done code hdrs redir]) s)"
  using assms
proof (induction es arbitrary: s)
  case Nil
  then show ?case by simp
next
  case (Cons e es)
  have run: "running s"
  proof (rule ccontr)
    assume "\<not> running s"
    with Cons.prems(2) show False by (simp add: uloop_run_stopped)
  qed
  show ?case
  proof (cases "0 \<le> output_fd (deliver e s)")
    case True
    with Cons.prems(1) deliver_opens_sink [of s e]
    obtain hdrs redir where "e = Header_done 200 hdrs redir \<or> e = Header_done 204 hdrs redir"
      by blast
    then obtain code where e: "e = Header_done code hdrs redir" and c: "code = 200 \<or> code = 204"
      by blast
    have "e # es = [] @ Header_done code hdrs redir # es" using e by simp
    moreover have "0 \<le> output_fd (uloop_run ([] @ [Header_done code hdrs redir]) s)"
      using True run e by simp
    ultimately show ?thesis using c by blast
  next
    case False
    then have closed: "output_fd (deliver e s) < 0" by simp
    have same: "sink_writes (trace (deliver e s)) = sink_writes (trace s)
                \<and> pulled (trace (deliver e s)) = pulled (trace s)"
      using Cons.prems(1) by (rule deliver_no_sink_io)
    have "pulled (trace (uloop_run es (deliver e s))) \<noteq> pulled (trace (deliver e s))
          \<or> sink_writes (trace (uloop_run es (deliver e s))) \<noteq> sink_writes (trace (deliver e s))"
      using Cons.prems(2) run same by simp
    from Cons.IH [OF closed this]
    obtain es1 code hdrs redir es2 where
      split: "es = es1 @ Header_done code hdrs redir # es2" and c: "code = 200 \<or> code = 204"
      and fd: "0 \<le> output_fd (uloop_run (es1 @ [Header_done code hdrs redir]) (deliver e s))"
      by blast
    have "e # es = (e # es1) @ Header_done code hdrs redir # es2" using split by simp
    moreover have "0 \<le> output_fd (uloop_run ((e # es1) @ [Header_done code hdrs redir]) s)"
      using fd run by simp
    ultimately show ?thesis using c by blast
  qed
qed

lemma demo_setup_checked: "main_setup (demo_env evs) [] [demo_url] = Inr (demo_start True)"
  by (simp add: main_setup_def main_session_def demo_start_def demo_url_def demo_env_def
        startup_def emit_def Let_def)

lemma demo_setup_unchecked:
  "main_setup (demo_env evs) [Opt_no_check_certificate] [demo_url] = Inr (demo_start False)"
  by (simp add: main_setup_def main_session_def demo_start_def demo_url_def demo_env_def
        startup_def emit_def Let_def)

lemma getopt_loop_trace_no_ssl:
  "getopt_loop opts s = Inr s' \<or> getopt_loop opts s = Inl s' \<Longrightarrow> \<not> ssl_ctx s \<Longrightarrow>
   trace s' = trace s"
  by (induction opts s rule: getopt_loop.induct) (auto simp: emit_def)

lemma uloop_run_invariant_on:
  assumes "I s" and step: "\<And>e s. e \<in> set es \<Longrightarrow> I s \<Longrightarrow> running s \<Longrightarrow> I (deliver e s)"
  shows "I (uloop_run es s)"
  using assms
proof (induction es arbitrary: s)
  case Nil
  then show ?case by simp
next
  case (Cons e es)
  show ?case
  proof (cases "running s")
    case True
    have "I (deliver e s)" using Cons.prems(1) True by (intro Cons.prems(2)) simp_all
    then have "I (uloop_run es (deliver e s))"
      by (rule Cons.IH) (rule Cons.prems(2), simp_all)
    with True show ?thesis by simp
  next
    case False
    with Cons.prems(1) show ?thesis by simp
  qed
qed

lemma deliver_assign_once:
  assumes "verify s \<or> (e \<noteq> Error UCLIENT_ERROR_SSL_INVALID_CERT
                        \<and> e \<noteq> Error UCLIENT_ERROR_SSL_CN_MISMATCH)"
    and "assignments (trace s) = []"
  shows "(running (deliver e s) \<longrightarrow> assignments (trace (deliver e s)) = [])
       \<and> length (assignments (trace (deliver e s))) \<le> 1"
  using assms
  by (cases e)
     (auto simp: cb_defs proj_append drain_log_assignments
           split: option.splits uclient_error_code.splits if_splits)

lemma main_setup_early:
  assumes "main_setup e opts args = Inl (r, s)"
  shows "r = 1 \<and> assignments (trace s) = [] \<and> sink_writes (trace s) = []
       \<and> pulled (trace s) = [] \<and> hops (trace s) = [] \<and> opens (trace s) = []"
proof (cases "getopt_loop opts (startup e)")
  case (Inl s1)
  then have "getopt_loop opts (startup e) = Inr s1 \<or> getopt_loop opts (startup e) = Inl s1"
    by simp
  note fr = getopt_loop_frame [OF this]
  from assms Inl have "r = 1 \<and> s = emit (Stderr (Msg_usage (progname e))) s1"
    by (auto simp: main_setup_def usage_def)
  with fr show ?thesis by (simp add: emit_def proj_append startup_def)
next
  case (Inr s1)
  then have "getopt_loop opts (startup e) = Inr s1 \<or> getopt_loop opts (startup e) = Inl s1"
    by simp
  note fr = getopt_loop_frame [OF this]
  from assms Inr have m: "main_session e args s1 = Inl (r, s)"
    by (simp add: main_setup_def)
  then have "r = 1 \<and> assignments (trace s) = assignments (trace s1)
       \<and> sink_writes (trace s) = sink_writes (trace s1)
       \<and> pulled (trace s) = pulled (trace s1) \<and> hops (trace s) = hops (trace s1)
       \<and> opens (trace s) = opens (trace s1)"
    by (auto simp: main_session_def usage_def no_ssl_def emit_def proj_append Let_def
          split: list.splits option.splits if_splits)
  with fr show ?thesis by (simp add: startup_def)
qed

lemma main_finish_frame:
  "fst (main_finish s) = Exit (error_ret s)
   \<and> assignments (trace (snd (main_finish s))) = assignments (trace s)
   \<and> sink_writes (trace (snd (main_finish s))) = sink_writes (trace s)
   \<and> pulled (trace (snd (main_finish s))) = pulled (trace s)
   \<and> hops (trace (snd (main_finish s))) = hops (trace s)
   \<and> opens (trace (snd (main_finish s))) = opens (trace s)"
  by (simp add: main_finish_def emit_def proj_append Let_def)

lemma main_entered:
  assumes "main_setup e opts args = Inr s0"
  shows "main e opts args =
           (if running (uloop_run (notifications e) s0)
            then (Waiting, uloop_run (notifications e) s0)
            else main_finish (uloop_run (notifications e) s0))"
  using assms by (simp add: main_def Let_def)


lemma header_final_eq:
  "10 \<le> retries s \<or> redir = None \<Longrightarrow>
   deliver (Header_done code hdrs redir) s =
     header_final (s\<lparr>uc := (uc s)\<lparr>status_code := code, meta := hdrs, redirect_to := redir\<rparr>\<rparr>)"
  by (auto simp: example_header_done_def uclient_http_redirect_def)

lemma deliver_hops:
  assumes "length (hops (trace s)) \<le> 10"
    and "running s \<and> output_fd s < 0 \<longrightarrow> int (length (hops (trace s))) = retries s"
    and "running s"
    and "header_event e \<longrightarrow> output_fd s < 0"
  shows "length (hops (trace (deliver e s))) \<le> 10
       \<and> (running (deliver e s) \<and> output_fd (deliver e s) < 0 \<longrightarrow>
            int (length (hops (trace (deliver e s)))) = retries (deliver e s))"
  using assms
  by (cases e)
     (auto simp: cb_defs proj_append drain_log_hops
           split: option.splits uclient_error_code.splits if_splits)

lemma uloop_run_hops:
  assumes "length (hops (trace s)) \<le> 10"
    and "running s \<and> output_fd s < 0 \<longrightarrow> int (length (hops (trace s))) = retries s"
    and "protocol_ok es s"
  shows "length (hops (trace (uloop_run es s))) \<le> 10"
  using assms
proof (induction es arbitrary: s)
  case Nil
  then show ?case by simp
next
  case (Cons e es)
  show ?case
  proof (cases "running s")
    case True
    from Cons.prems(3) True have hdr: "header_event e \<longrightarrow> output_fd s < 0"
      and rest: "protocol_ok es (deliver e s)"
      by (simp_all split: if_splits)
    note step = deliver_hops [OF Cons.prems(1) Cons.prems(2) True hdr]
    have "length (hops (trace (uloop_run es (deliver e s)))) \<le> 10"
      using step rest by (intro Cons.IH) simp_all
    with True show ?thesis by simp
  next
    case False
    with Cons.prems(1) show ?thesis by simp
  qed
qed

lemma header_final_outcome:
  "retries (header_final s) = 0 \<and> hops (trace (header_final s)) = hops (trace s)
   \<and> (running (header_final s) \<longrightarrow> 0 \<le> output_fd (header_final s))"
  by (cases "quiet s")
     (auto simp: header_final_def open_output_file_def sys_open_eq request_done_def
           step_defs Let_def STDOUT_FILENO_def proj_append split: option.splits if_splits)

lemma obs_fields:
  "quiet (obs s) = True" "verify (obs s) = verify s" "output_file (obs s) = output_file s"
  "output_fd (obs s) = output_fd s" "error_ret (obs s) = error_ret s"
  "retries (obs s) = retries s" "ssl_ctx (obs s) = ssl_ctx s" "os (obs s) = os s"
  "uc (obs s) = uc s" "running (obs s) = running s" "trace (obs s) = silent (trace s)"
  by (simp_all add: obs_def)

lemma silent_idem: "silent (silent xs) = silent xs"
  by (induction xs rule: silent.induct) simp_all

lemma sink_writes_silent: "sink_writes (silent xs) = sink_writes xs"
  by (induction xs rule: silent.induct) simp_all

lemma obs_idem: "obs (obs s) = obs s"
  by (simp add: obs_def silent_idem)

lemma obs_deliver: "obs (deliver e s) = deliver e (obs s)"
  by (cases e)
     (auto simp: cb_defs obs_def silent_append drain_log_silent
           split: option.splits uclient_error_code.splits)

lemma obs_uloop_run: "obs (uloop_run es s) = uloop_run es (obs s)"
proof (induction es arbitrary: s)
  case Nil
  show ?case by simp
next
  case (Cons e es)
  show ?case
    using Cons.IH [of "deliver e s"] by (simp add: obs_deliver obs_fields)
qed

lemma obs_main_finish: "apsnd obs (main_finish s) = main_finish (obs s)"
  by (simp add: main_finish_def obs_def emit_def silent_append Let_def)

lemma getopt_loop_obs: "map_sum obs obs (getopt_loop opts s) = getopt_loop opts (obs s)"
proof (induction opts s rule: getopt_loop.induct)
  case (1 s)
  show ?case by simp
next
  case (2 r s)
  have "obs (s\<lparr>verify := False\<rparr>) = (obs s)\<lparr>verify := False\<rparr>" by (simp add: obs_def)
  with 2 show ?case by simp
next
  case (3 f r s)
  have "obs (if ssl_ctx s then emit (Ssl_add_ca f) s else s) =
        (if ssl_ctx (obs s) then emit (Ssl_add_ca f) (obs s) else obs s)"
    by (simp add: obs_def emit_def silent_append)
  with 3 show ?case by simp
next
  case (4 f r s)
  have "obs (s\<lparr>output_file := Some f\<rparr>) = (obs s)\<lparr>output_file := Some f\<rparr>" by (simp add: obs_def)
  with 4 show ?case by simp
next
  case (5 r s)
  have "obs (s\<lparr>quiet := True\<rparr>) = (obs s)\<lparr>quiet := True\<rparr>" by (simp add: obs_def)
  with 5 show ?case by simp
next
  case (6 r s)
  show ?case by simp
qed

lemma getopt_loop_quiet:
  "quiet s \<Longrightarrow> getopt_loop (o1 @ Opt_q # o2) s = getopt_loop (o1 @ o2) s"
proof (induction o1 s rule: getopt_loop.induct)
  case (1 s)
  then have "s\<lparr>quiet := True\<rparr> = s" by simp
  then show ?case by simp
next
  case (2 r s)
  then show ?case by simp
next
  case (3 f r s)
  then show ?case by (simp add: emit_def)
next
  case (4 f r s)
  then show ?case by simp
next
  case (5 r s)
  then show ?case by simp
next
  case (6 r s)
  show ?case by simp
qed

lemma getopt_loop_with_q:
  "map_sum obs obs (getopt_loop (o1 @ Opt_q # o2) s) = map_sum obs obs (getopt_loop (o1 @ o2) s)"
  by (simp add: getopt_loop_obs getopt_loop_quiet obs_fields)

lemma main_session_obs:
  "map_sum (apsnd obs) obs (main_session e args s) =
   map_sum (apsnd obs) obs (main_session e args (obs s))"
  by (auto simp: main_session_def usage_def no_ssl_def init_request_def msg_connecting_def
        emit_def obs_def silent_append silent_idem Let_def
      split: list.splits option.splits)

lemma main_setup_obs:
  assumes "map_sum obs obs (getopt_loop o1 (startup e)) = map_sum obs obs (getopt_loop o2 (startup e))"
  shows "map_sum (apsnd obs) obs (main_setup e o1 args) =
         map_sum (apsnd obs) obs (main_setup e o2 args)"
proof (cases "getopt_loop o1 (startup e)")
  case (Inl s1)
  with assms obtain s2 where 2: "getopt_loop o2 (startup e) = Inl s2" and eq: "obs s1 = obs s2"
    by (cases "getopt_loop o2 (startup e)") auto
  have "\<And>s. apsnd obs (usage (progname e) s) = (1, obs s)"
    by (simp add: usage_def obs_def emit_def silent_append)
  with Inl 2 eq show ?thesis by (simp add: main_setup_def)
next
  case (Inr s1)
  with assms obtain s2 where 2: "getopt_loop o2 (startup e) = Inr s2" and eq: "obs s1 = obs s2"
    by (cases "getopt_loop o2 (startup e)") auto
  have "map_sum (apsnd obs) obs (main_session e args s1) =
        map_sum (apsnd obs) obs (main_session e args s2)"
    using main_session_obs [of e args s1] main_session_obs [of e args s2] eq by simp
  with Inr 2 show ?thesis by (simp add: main_setup_def)
qed

lemma main_obs:
  assumes "map_sum (apsnd obs) obs (main_setup e o1 args) =
           map_sum (apsnd obs) obs (main_setup e o2 args)"
  shows "apsnd obs (main e o1 args) = apsnd obs (main e o2 args)"
proof (cases "main_setup e o1 args")
  case (Inl p1)
  with assms obtain p2 where 2: "main_setup e o2 args = Inl p2" and eq: "apsnd obs p1 = apsnd obs p2"
    by (cases "main_setup e o2 args") auto
  obtain r1 s1 where p1: "p1 = (r1, s1)" by (cases p1)
  obtain r2 s2 where p2: "p2 = (r2, s2)" by (cases p2)
  from Inl 2 eq p1 p2 show ?thesis by (simp add: main_def)
next
  case (Inr s1)
  with assms obtain s2 where 2: "main_setup e o2 args = Inr s2" and eq: "obs s1 = obs s2"
    by (cases "main_setup e o2 args") auto
  let ?t1 = "uloop_run (notifications e) s1"
  let ?t2 = "uloop_run (notifications e) s2"
  have t: "obs ?t1 = obs ?t2"
    using eq by (simp add: obs_uloop_run)
  then have r: "running ?t1 = running ?t2"
    using obs_fields(10) [of ?t1] obs_fields(10) [of ?t2] by simp
  have f: "apsnd obs (main_finish ?t1) = apsnd obs (main_finish ?t2)"
    using t by (simp add: obs_main_finish)
  show ?thesis
    using r t f by (simp add: main_entered [OF Inr] main_entered [OF 2])
qed

section \<open>Claims\<close>




text \<open>
  C2 (as amended).  With no explicit output path, the sink is the file
  \<open>derived_filename path\<close> opened with \<^verbatim>\<open>O_WRONLY | O_CREAT | O_EXCL\<close>, so the open fails
  when that file exists.  For a path that contains none of \<^verbatim>\<open>?\<close>, \<^verbatim>\<open>#\<close>, \<^verbatim>\<open>;\<close> and \<^verbatim>\<open>&\<close>
  the name is the one the specification describes: the path without its trailing
  slashes, reduced to its last segment, and \<^verbatim>\<open>index.html\<close> when that segment is empty.
  For \<^verbatim>\<open>/a/b/report.csv\<close> it is \<^verbatim>\<open>report.csv\<close>; for \<^verbatim>\<open>/a/b/\<close> and \<^verbatim>\<open>/a/b\<close> it is \<^verbatim>\<open>b\<close>;
  for \<^verbatim>\<open>/\<close> it is \<^verbatim>\<open>index.html\<close>.  Nothing is said here about paths with a delimiter.
\<close>

theorem derived_output_filename:
  assumes "output_file s = None"
  shows "open_output_file path True s =
           sys_open (derived_filename path) {O_EXCL, O_CREAT, O_WRONLY} s
       \<and> (CHR ''?'' \<notin> set path \<and> CHR ''#'' \<notin> set path
            \<and> CHR '';'' \<notin> set path \<and> CHR ''&'' \<notin> set path \<longrightarrow>
            derived_filename path = spec_filename path)
       \<and> (derived_filename path \<in> existing (os s) \<longrightarrow>
            fst (open_output_file path True s) = - 1)
       \<and> derived_filename ''/a/b/report.csv'' = ''report.csv''
       \<and> derived_filename ''/a/b/'' = ''b''
       \<and> derived_filename ''/a/b'' = ''b''
       \<and> derived_filename ''/'' = ''index.html''"
proof -
  have a: "open_output_file path True s =
           sys_open (derived_filename path) {O_EXCL, O_CREAT, O_WRONLY} s"
    using assms by (rule open_output_file_derived)
  have r: "CHR ''?'' \<notin> set path \<and> CHR ''#'' \<notin> set path
            \<and> CHR '';'' \<notin> set path \<and> CHR ''&'' \<notin> set path \<longrightarrow>
            derived_filename path = spec_filename path"
    by (simp add: derived_filename_plain)
  have b: "derived_filename path \<in> existing (os s) \<longrightarrow> fst (open_output_file path True s) = - 1"
    unfolding a fst_sys_open by (simp add: os_open_excl)
  from a r b df1 df2 df3 df4
  show ?thesis by (intro conjI)
qed

text \<open>An instance of C2: the location \<^verbatim>\<open>/a/b/report.csv\<close> where \<^verbatim>\<open>report.csv\<close> exists.\<close>

theorem derived_output_filename_witness:
  "output_file (startup (demo_env [])) = None
   \<and> opens (trace (snd (open_output_file ''/a/b/report.csv'' True (startup (demo_env []))))) =
       [''report.csv'']
   \<and> fst (open_output_file ''/a/b/report.csv'' True (startup (demo_env []))) = - 1
   \<and> derived_filename ''/a/b/report.csv'' = spec_filename ''/a/b/report.csv''"
proof -
  have h: "output_file (startup (demo_env [])) = None"
    by (simp add: startup_def)
  note T = derived_output_filename [OF h, of "''/a/b/report.csv''"]
  from T have a: "open_output_file ''/a/b/report.csv'' True (startup (demo_env [])) =
      sys_open (derived_filename ''/a/b/report.csv'') {O_EXCL, O_CREAT, O_WRONLY}
        (startup (demo_env []))"
    by (rule conjunct1)
  from T have b: "derived_filename ''/a/b/report.csv'' \<in> existing (os (startup (demo_env []))) \<longrightarrow>
      fst (open_output_file ''/a/b/report.csv'' True (startup (demo_env []))) = - 1"
    by blast
  from T have r: "CHR ''?'' \<notin> set ''/a/b/report.csv'' \<and> CHR ''#'' \<notin> set ''/a/b/report.csv''
      \<and> CHR '';'' \<notin> set ''/a/b/report.csv'' \<and> CHR ''&'' \<notin> set ''/a/b/report.csv'' \<longrightarrow>
      derived_filename ''/a/b/report.csv'' = spec_filename ''/a/b/report.csv''"
    by blast
  have plain: "CHR ''?'' \<notin> set ''/a/b/report.csv'' \<and> CHR ''#'' \<notin> set ''/a/b/report.csv''
      \<and> CHR '';'' \<notin> set ''/a/b/report.csv'' \<and> CHR ''&'' \<notin> set ''/a/b/report.csv''"
    by simp
  from r plain have sp: "derived_filename ''/a/b/report.csv'' = spec_filename ''/a/b/report.csv''"
    by (rule mp)
  have dn: "derived_filename ''/a/b/report.csv'' = ''report.csv''"
    by code_simp
  have ex: "derived_filename ''/a/b/report.csv'' \<in> existing (os (startup (demo_env [])))"
    unfolding dn by (simp add: startup_def demo_env_def demo_fs_def)
  have tr: "opens (trace (snd (open_output_file ''/a/b/report.csv'' True (startup (demo_env []))))) =
       [''report.csv'']"
    unfolding a dn by (simp add: sys_open_def emit_def startup_def split: prod.splits)
  from b ex have fl: "fst (open_output_file ''/a/b/report.csv'' True (startup (demo_env []))) = - 1"
    by (rule mp)
  from h tr fl sp show ?thesis by (intro conjI)
qed

text \<open>
  C2 as stated fails.  For the locations \<^verbatim>\<open>/a/b/\<close> and \<^verbatim>\<open>/a/b\<close> the file opened is
  \<^verbatim>\<open>b\<close>, not \<^verbatim>\<open>index.html\<close>.  And a query is not stripped: for
  \<^verbatim>\<open>/a/b/report.csv?x=1\<close> the file opened is \<^verbatim>\<open>report.csv?x=1\<close>, where the
  specification's recipe gives \<^verbatim>\<open>report.csv\<close>.
\<close>

theorem derived_name_index_html_counterexample:
  "opens (trace (snd (open_output_file ''/a/b/'' True (startup (demo_env []))))) = [''b'']
   \<and> opens (trace (snd (open_output_file ''/a/b'' True (startup (demo_env []))))) = [''b'']
   \<and> derived_filename ''/a/b/'' \<noteq> ''index.html''
   \<and> derived_filename ''/a/b'' \<noteq> ''index.html''
   \<and> opens (trace (snd (open_output_file ''/a/b/report.csv?x=1'' True (startup (demo_env []))))) =
       [''report.csv?x=1'']
   \<and> spec_filename ''/a/b/report.csv?x=1'' = ''report.csv''
   \<and> derived_filename ''/a/b/report.csv?x=1'' \<noteq> spec_filename ''/a/b/report.csv?x=1''"
  by code_simp

text \<open>
  C3.  A followed redirect raises the counter by exactly one and is the only thing that
  raises it; the counter stays between 0 and 10 throughout a run of \<^verbatim>\<open>main\<close>, and when
  the engine keeps to one response per request at most 10 redirects are followed in the
  whole run.  With the counter at 10 the next header notification is handled as a final
  response whatever it carries: no redirect is asked for even if a target is present,
  the counter returns to 0, and either a sink is open afterwards or the loop has been
  ended.
\<close>

theorem redirect_hops_bounded:
  assumes entry: "main_setup e opts args = Inr s0"
  shows "(retries s < 10 \<longrightarrow>
            retries (deliver (Header_done code hdrs (Some u)) s) = retries s + 1
          \<and> hops (trace (deliver (Header_done code hdrs (Some u)) s)) = hops (trace s) @ [u])
       \<and> 0 \<le> retries (uloop_run es s0) \<and> retries (uloop_run es s0) \<le> 10
       \<and> (protocol_ok (notifications e) s0 \<longrightarrow>
            length (hops (trace (snd (main e opts args)))) \<le> 10)
       \<and> (10 \<le> retries s \<longrightarrow>
            deliver (Header_done code hdrs redir) s =
              header_final
                (s\<lparr>uc := (uc s)\<lparr>status_code := code, meta := hdrs, redirect_to := redir\<rparr>\<rparr>)
          \<and> hops (trace (deliver (Header_done code hdrs redir) s)) = hops (trace s)
          \<and> retries (deliver (Header_done code hdrs redir) s) = 0
          \<and> (running (deliver (Header_done code hdrs redir) s) \<longrightarrow>
               0 \<le> output_fd (deliver (Header_done code hdrs redir) s)))"
proof -
  note fresh = main_setup_fresh [OF entry]
  have a: "retries s < 10 \<longrightarrow>
            retries (deliver (Header_done code hdrs (Some u)) s) = retries s + 1
          \<and> hops (trace (deliver (Header_done code hdrs (Some u)) s)) = hops (trace s) @ [u]"
    by (simp add: cb_defs proj_append)
  have b: "0 \<le> retries (uloop_run es s0) \<and> retries (uloop_run es s0) \<le> 10"
    using fresh by (intro uloop_run_retries) simp_all
  have c: "protocol_ok (notifications e) s0 \<longrightarrow>
            length (hops (trace (snd (main e opts args)))) \<le> 10"
  proof
    assume ok: "protocol_ok (notifications e) s0"
    have "length (hops (trace (uloop_run (notifications e) s0))) \<le> 10"
      using fresh ok by (intro uloop_run_hops) simp_all
    then show "length (hops (trace (snd (main e opts args)))) \<le> 10"
      using main_finish_frame [of "uloop_run (notifications e) s0"]
      by (simp add: main_entered [OF entry])
  qed
  have d: "10 \<le> retries s \<longrightarrow>
            deliver (Header_done code hdrs redir) s =
              header_final
                (s\<lparr>uc := (uc s)\<lparr>status_code := code, meta := hdrs, redirect_to := redir\<rparr>\<rparr>)
          \<and> hops (trace (deliver (Header_done code hdrs redir) s)) = hops (trace s)
          \<and> retries (deliver (Header_done code hdrs redir) s) = 0
          \<and> (running (deliver (Header_done code hdrs redir) s) \<longrightarrow>
               0 \<le> output_fd (deliver (Header_done code hdrs redir) s))"
  proof
    assume full: "10 \<le> retries s"
    then have eq: "deliver (Header_done code hdrs redir) s =
              header_final
                (s\<lparr>uc := (uc s)\<lparr>status_code := code, meta := hdrs, redirect_to := redir\<rparr>\<rparr>)"
      by (intro header_final_eq) simp
    show "deliver (Header_done code hdrs redir) s =
              header_final
                (s\<lparr>uc := (uc s)\<lparr>status_code := code, meta := hdrs, redirect_to := redir\<rparr>\<rparr>)
          \<and> hops (trace (deliver (Header_done code hdrs redir) s)) = hops (trace s)
          \<and> retries (deliver (Header_done code hdrs redir) s) = 0
          \<and> (running (deliver (Header_done code hdrs redir) s) \<longrightarrow>
               0 \<le> output_fd (deliver (Header_done code hdrs redir) s))"
      unfolding eq
      using header_final_outcome
        [of "s\<lparr>uc := (uc s)\<lparr>status_code := code, meta := hdrs, redirect_to := redir\<rparr>\<rparr>"]
      by simp
  qed
  from b have b1: "0 \<le> retries (uloop_run es s0)" and b2: "retries (uloop_run es s0) \<le> 10"
    by simp_all
  from a b1 b2 c d show ?thesis by (intro conjI)
qed

text \<open>
  An instance of C3: a server that answers every request with a 302.  The fourth
  redirect takes the counter from 3 to 4; of twelve such responses ten are followed;
  the eleventh finds the counter at 10 and ends the session.
\<close>

theorem redirect_hops_bounded_witness:
  "retries (uloop_run (demo_redirects 3) (demo_start True)) = 3
   \<and> retries (deliver (Header_done 302 [] (Some demo_target))
        (uloop_run (demo_redirects 3) (demo_start True))) = 4
   \<and> protocol_ok (demo_redirects 12) (demo_start True)
   \<and> length (hops (trace (snd (main (demo_env (demo_redirects 12)) [] [demo_url])))) \<le> 10
   \<and> retries (uloop_run (demo_redirects 10) (demo_start True)) = 10
   \<and> hops (trace (deliver (Header_done 302 [] (Some demo_target))
        (uloop_run (demo_redirects 10) (demo_start True)))) =
       hops (trace (uloop_run (demo_redirects 10) (demo_start True)))
   \<and> retries (deliver (Header_done 302 [] (Some demo_target))
        (uloop_run (demo_redirects 10) (demo_start True))) = 0
   \<and> \<not> running (deliver (Header_done 302 [] (Some demo_target))
        (uloop_run (demo_redirects 10) (demo_start True)))"
proof -
  let ?s3 = "uloop_run (demo_redirects 3) (demo_start True)"
  let ?s10 = "uloop_run (demo_redirects 10) (demo_start True)"
  have r3: "retries ?s3 = 3"
    by code_simp
  have r10: "retries ?s10 = 10"
    by code_simp
  have ok: "protocol_ok (demo_redirects 12) (demo_start True)"
    by code_simp
  have ok': "protocol_ok (notifications (demo_env (demo_redirects 12))) (demo_start True)"
    using ok by (simp add: demo_env_def)
  have stop: "\<not> running (deliver (Header_done 302 [] (Some demo_target)) ?s10)"
    by code_simp
  have lt3: "retries ?s3 < 10"
    using r3 by simp
  from redirect_hops_bounded [OF demo_setup_checked, where s = ?s3 and code = 302
         and hdrs = "[]" and u = demo_target] lt3
  have "retries (deliver (Header_done 302 [] (Some demo_target)) ?s3) = retries ?s3 + 1"
    by blast
  with r3 have 1: "retries (deliver (Header_done 302 [] (Some demo_target)) ?s3) = 4"
    by simp
  from redirect_hops_bounded [OF demo_setup_checked [of "demo_redirects 12"]] ok'
  have 2: "length (hops (trace (snd (main (demo_env (demo_redirects 12)) [] [demo_url])))) \<le> 10"
    by blast
  have full: "10 \<le> retries ?s10"
    using r10 by simp
  from redirect_hops_bounded [OF demo_setup_checked, where s = ?s10 and code = 302
         and hdrs = "[]" and redir = "Some demo_target"] full
  have 3: "hops (trace (deliver (Header_done 302 [] (Some demo_target)) ?s10)) = hops (trace ?s10)
         \<and> retries (deliver (Header_done 302 [] (Some demo_target)) ?s10) = 0"
    by blast
  from r3 1 ok 2 r10 3 stop show ?thesis by (intro conjI) simp_all
qed

text \<open>
  C4.  A header notification that carries a redirect target and arrives while fewer than
  10 redirects have been followed is followed: the engine re-requests the target, the
  session URL becomes the target, the counter goes up by one, and nothing is opened: no
  call to \<^verbatim>\<open>open\<close>, the descriptor variable, the file system and the loop are as before.
\<close>

theorem redirect_followed_without_sink:
  assumes "retries s < 10"
  shows "hops (trace (deliver (Header_done code hdrs (Some u)) s)) = hops (trace s) @ [u]
       \<and> cl_url (uc (deliver (Header_done code hdrs (Some u)) s)) = u
       \<and> retries (deliver (Header_done code hdrs (Some u)) s) = retries s + 1
       \<and> opens (trace (deliver (Header_done code hdrs (Some u)) s)) = opens (trace s)
       \<and> output_fd (deliver (Header_done code hdrs (Some u)) s) = output_fd s
       \<and> os (deliver (Header_done code hdrs (Some u)) s) = os s
       \<and> running (deliver (Header_done code hdrs (Some u)) s) = running s"
  using assms by (simp add: cb_defs proj_append)

text \<open>An instance of C4: a 302 response at the start of a session.\<close>

theorem redirect_followed_without_sink_witness:
  "retries (startup (demo_env [])) < 10
   \<and> hops (trace (deliver (Header_done 302 [] (Some demo_target)) (startup (demo_env [])))) =
       [demo_target]
   \<and> opens (trace (deliver (Header_done 302 [] (Some demo_target)) (startup (demo_env [])))) = []
   \<and> output_fd (deliver (Header_done 302 [] (Some demo_target)) (startup (demo_env []))) = - 1"
proof -
  have h: "retries (startup (demo_env [])) < 10"
    by (simp add: startup_def)
  have i: "hops (trace (startup (demo_env []))) = [] \<and> opens (trace (startup (demo_env []))) = []
           \<and> output_fd (startup (demo_env [])) = - 1"
    by (simp add: startup_def)
  from redirect_followed_without_sink [OF h, of 302 "[]" demo_target] h i
  show ?thesis by simp
qed

text \<open>
  C5.  In any state the loop reaches, an invalid-certificate or hostname-mismatch error is
  ignored exactly when \<^verbatim>\<open>--no-check-certificate\<close> was given.  Ignored: \<^verbatim>\<open>error_ret\<close> ends
  as 0 (assigned 5, then 0), the loop keeps running, the sink stays as it is and nothing
  is closed or disconnected.  Not ignored: \<^verbatim>\<open>error_ret\<close> is 5, an open sink is closed, the
  connection is dropped and the loop is ended.
\<close>

theorem certificate_error_policy:
  assumes "main_setup e opts args = Inr s0"
    and "code = UCLIENT_ERROR_SSL_INVALID_CERT \<or> code = UCLIENT_ERROR_SSL_CN_MISMATCH"
  shows "(Opt_no_check_certificate \<in> set opts \<longrightarrow>
            error_ret (handle_uclient_error code (uloop_run es s0)) = 0
          \<and> running (handle_uclient_error code (uloop_run es s0)) = running (uloop_run es s0)
          \<and> output_fd (handle_uclient_error code (uloop_run es s0)) = output_fd (uloop_run es s0)
          \<and> os (handle_uclient_error code (uloop_run es s0)) = os (uloop_run es s0)
          \<and> silent (trace (handle_uclient_error code (uloop_run es s0))) =
              silent (trace (uloop_run es s0)) @ [Assign_error_ret 5, Assign_error_ret 0])
       \<and> (Opt_no_check_certificate \<notin> set opts \<longrightarrow>
            error_ret (handle_uclient_error code (uloop_run es s0)) = 5
          \<and> \<not> running (handle_uclient_error code (uloop_run es s0))
          \<and> output_fd (handle_uclient_error code (uloop_run es s0)) < 0
          \<and> silent (trace (handle_uclient_error code (uloop_run es s0))) =
              silent (trace (uloop_run es s0)) @ [Assign_error_ret 5]
                @ (if 0 \<le> output_fd (uloop_run es s0)
                   then [Sys_close (output_fd (uloop_run es s0))] else [])
                @ [Uclient_disconnect, Uloop_end])"
proof -
  have v: "verify (uloop_run es s0) = (Opt_no_check_certificate \<notin> set opts)"
    using main_setup_fresh [OF assms(1)] uloop_run_config [of es s0] by simp
  show ?thesis
    using assms(2) v by (cases "quiet (uloop_run es s0)") (auto simp: cb_defs proj_append)
qed


text \<open>
  An instance of C5: a certificate error after a 200 response has opened descriptor 3,
  with and without \<^verbatim>\<open>--no-check-certificate\<close>.
\<close>

theorem certificate_error_policy_witness:
  "error_ret (handle_uclient_error UCLIENT_ERROR_SSL_INVALID_CERT
      (uloop_run [Header_done 200 [] None] (demo_start False))) = 0
   \<and> running (handle_uclient_error UCLIENT_ERROR_SSL_INVALID_CERT
      (uloop_run [Header_done 200 [] None] (demo_start False)))
   \<and> output_fd (handle_uclient_error UCLIENT_ERROR_SSL_INVALID_CERT
      (uloop_run [Header_done 200 [] None] (demo_start False))) = 3
   \<and> error_ret (handle_uclient_error UCLIENT_ERROR_SSL_CN_MISMATCH
      (uloop_run [Header_done 200 [] None] (demo_start True))) = 5
   \<and> \<not> running (handle_uclient_error UCLIENT_ERROR_SSL_CN_MISMATCH
      (uloop_run [Header_done 200 [] None] (demo_start True)))
   \<and> silent (trace (handle_uclient_error UCLIENT_ERROR_SSL_CN_MISMATCH
      (uloop_run [Header_done 200 [] None] (demo_start True)))) =
     silent (trace (uloop_run [Header_done 200 [] None] (demo_start True)))
       @ [Assign_error_ret 5, Sys_close 3, Uclient_disconnect, Uloop_end]"
proof -
  let ?es = "[Header_done 200 [] None]"
  have r: "running (uloop_run ?es (demo_start False))"
    by code_simp
  have f: "output_fd (uloop_run ?es (demo_start False)) = 3"
    by code_simp
  have g: "output_fd (uloop_run ?es (demo_start True)) = 3"
    by code_simp
  from certificate_error_policy
         [OF demo_setup_unchecked, of UCLIENT_ERROR_SSL_INVALID_CERT ?es]
  have a: "error_ret (handle_uclient_error UCLIENT_ERROR_SSL_INVALID_CERT
             (uloop_run ?es (demo_start False))) = 0
         \<and> running (handle_uclient_error UCLIENT_ERROR_SSL_INVALID_CERT
             (uloop_run ?es (demo_start False))) = running (uloop_run ?es (demo_start False))
         \<and> output_fd (handle_uclient_error UCLIENT_ERROR_SSL_INVALID_CERT
             (uloop_run ?es (demo_start False))) = output_fd (uloop_run ?es (demo_start False))"
    by simp
  from certificate_error_policy
         [OF demo_setup_checked, of UCLIENT_ERROR_SSL_CN_MISMATCH ?es]
  have b: "error_ret (handle_uclient_error UCLIENT_ERROR_SSL_CN_MISMATCH
             (uloop_run ?es (demo_start True))) = 5
         \<and> \<not> running (handle_uclient_error UCLIENT_ERROR_SSL_CN_MISMATCH
             (uloop_run ?es (demo_start True)))
         \<and> silent (trace (handle_uclient_error UCLIENT_ERROR_SSL_CN_MISMATCH
             (uloop_run ?es (demo_start True)))) =
              silent (trace (uloop_run ?es (demo_start True))) @ [Assign_error_ret 5]
                @ (if 0 \<le> output_fd (uloop_run ?es (demo_start True))
                   then [Sys_close (output_fd (uloop_run ?es (demo_start True)))] else [])
                @ [Uclient_disconnect, Uloop_end]"
    by simp
  from a r f b g show ?thesis by simp
qed

text \<open>
  C6.  With the explicit path \<^verbatim>\<open>-\<close> the sink is standard output and nothing is opened.
  With any other explicit path the file is opened with \<^verbatim>\<open>O_WRONLY | O_CREAT\<close>, without
  \<^verbatim>\<open>O_EXCL\<close>: a writable file at that path is opened successfully when it exists and
  is created when it does not, whereas an existing file under the derived name makes
  the open fail.
\<close>

theorem explicit_output_path:
  "(output_file s = Some ''-'' \<longrightarrow> open_output_file path True s = (STDOUT_FILENO, s))
   \<and> (output_file s = Some f \<and> f \<noteq> ''-'' \<longrightarrow>
        open_output_file path True s = sys_open f {O_CREAT, O_WRONLY} s)
   \<and> (output_file s = Some f \<and> f \<noteq> ''-'' \<and> f \<noteq> [] \<and> f \<in> existing (os s)
          \<and> f \<notin> unwritable (os s) \<longrightarrow>
        0 \<le> fst (open_output_file path True s))
   \<and> (output_file s = Some f \<and> f \<noteq> ''-'' \<and> f \<noteq> [] \<and> f \<notin> existing (os s)
          \<and> f \<notin> unwritable (os s) \<longrightarrow>
        0 \<le> fst (open_output_file path True s)
        \<and> f \<in> existing (os (snd (open_output_file path True s))))
   \<and> (output_file s = None \<and> derived_filename path \<in> existing (os s) \<longrightarrow>
        fst (open_output_file path True s) = - 1)"
proof -
  have a: "output_file s = Some ''-'' \<longrightarrow> open_output_file path True s = (STDOUT_FILENO, s)"
    by (simp add: open_output_file_stdout)
  have b: "output_file s = Some f \<and> f \<noteq> ''-'' \<longrightarrow>
           open_output_file path True s = sys_open f {O_CREAT, O_WRONLY} s"
    by (simp add: open_output_file_explicit)
  have c: "output_file s = Some f \<and> f \<noteq> ''-'' \<and> f \<noteq> [] \<and> f \<in> existing (os s)
           \<and> f \<notin> unwritable (os s) \<longrightarrow> 0 \<le> fst (open_output_file path True s)"
    by (simp add: open_output_file_explicit fst_sys_open os_open_overwrite)
  have d: "output_file s = None \<and> derived_filename path \<in> existing (os s) \<longrightarrow>
           fst (open_output_file path True s) = - 1"
    by (simp add: open_output_file_derived fst_sys_open os_open_excl)
  have n: "output_file s = Some f \<and> f \<noteq> ''-'' \<and> f \<noteq> [] \<and> f \<notin> existing (os s)
           \<and> f \<notin> unwritable (os s) \<longrightarrow>
           0 \<le> fst (open_output_file path True s)
           \<and> f \<in> existing (os (snd (open_output_file path True s)))"
    by (simp add: open_output_file_explicit fst_sys_open os_sys_open os_open_create)
  from a b c n d show ?thesis by (intro conjI)
qed

text \<open>An instance of C6: \<^verbatim>\<open>-O -\<close>, \<^verbatim>\<open>-O result.bin\<close> and no \<^verbatim>\<open>-O\<close>, with \<^verbatim>\<open>result.bin\<close> existing.\<close>

theorem explicit_output_path_witness:
  "open_output_file ''/a/b/result.bin'' True ((startup (demo_env []))\<lparr>output_file := Some ''-''\<rparr>) =
     (1, (startup (demo_env []))\<lparr>output_file := Some ''-''\<rparr>)
   \<and> ''result.bin'' \<in> existing (os (startup (demo_env [])))
   \<and> open_output_file ''/a/b/result.bin'' True
        ((startup (demo_env []))\<lparr>output_file := Some ''result.bin''\<rparr>) =
      sys_open ''result.bin'' {O_CREAT, O_WRONLY}
        ((startup (demo_env []))\<lparr>output_file := Some ''result.bin''\<rparr>)
   \<and> 0 \<le> fst (open_output_file ''/a/b/result.bin'' True
        ((startup (demo_env []))\<lparr>output_file := Some ''result.bin''\<rparr>))
   \<and> fst (open_output_file ''/a/b/result.bin'' True (startup (demo_env []))) = - 1
   \<and> ''fresh.bin'' \<notin> existing (os (startup (demo_env [])))
   \<and> 0 \<le> fst (open_output_file ''/a/b/result.bin'' True
        ((startup (demo_env []))\<lparr>output_file := Some ''fresh.bin''\<rparr>))
   \<and> ''fresh.bin'' \<in> existing (os (snd (open_output_file ''/a/b/result.bin'' True
        ((startup (demo_env []))\<lparr>output_file := Some ''fresh.bin''\<rparr>))))"
proof -
  let ?s = "startup (demo_env [])"
  have ex: "''result.bin'' \<in> existing (os ?s)"
    by (simp add: startup_def demo_env_def demo_fs_def)
  have nw: "''result.bin'' \<notin> unwritable (os ?s)"
    by (simp add: startup_def demo_env_def demo_fs_def)
  have dn: "derived_filename ''/a/b/result.bin'' = ''result.bin''"
    by code_simp
  have nn: "output_file ?s = None"
    by (simp add: startup_def)
  from explicit_output_path [of "?s\<lparr>output_file := Some ''-''\<rparr>" "''/a/b/result.bin''" "''-''"]
  have 1: "open_output_file ''/a/b/result.bin'' True (?s\<lparr>output_file := Some ''-''\<rparr>) =
           (1, ?s\<lparr>output_file := Some ''-''\<rparr>)"
    by (simp add: STDOUT_FILENO_def)
  note T = explicit_output_path
         [of "?s\<lparr>output_file := Some ''result.bin''\<rparr>" "''/a/b/result.bin''" "''result.bin''"]
  from T have 2: "open_output_file ''/a/b/result.bin'' True (?s\<lparr>output_file := Some ''result.bin''\<rparr>) =
      sys_open ''result.bin'' {O_CREAT, O_WRONLY} (?s\<lparr>output_file := Some ''result.bin''\<rparr>)"
    by simp
  have pre: "output_file (?s\<lparr>output_file := Some ''result.bin''\<rparr>) = Some ''result.bin''
      \<and> ''result.bin'' \<noteq> ''-'' \<and> ''result.bin'' \<noteq> []
      \<and> ''result.bin'' \<in> existing (os (?s\<lparr>output_file := Some ''result.bin''\<rparr>))
      \<and> ''result.bin'' \<notin> unwritable (os (?s\<lparr>output_file := Some ''result.bin''\<rparr>))"
    using ex nw by simp
  from T pre
  have 3: "0 \<le> fst (open_output_file ''/a/b/result.bin'' True (?s\<lparr>output_file := Some ''result.bin''\<rparr>))"
    by blast
  from explicit_output_path [of ?s "''/a/b/result.bin''" "''x''"] ex nn dn
  have 4: "fst (open_output_file ''/a/b/result.bin'' True ?s) = - 1"
    by simp
  have nex: "''fresh.bin'' \<notin> existing (os ?s)"
    by (simp add: startup_def demo_env_def demo_fs_def)
  have pre5: "output_file (?s\<lparr>output_file := Some ''fresh.bin''\<rparr>) = Some ''fresh.bin''
      \<and> ''fresh.bin'' \<noteq> ''-'' \<and> ''fresh.bin'' \<noteq> []
      \<and> ''fresh.bin'' \<notin> existing (os (?s\<lparr>output_file := Some ''fresh.bin''\<rparr>))
      \<and> ''fresh.bin'' \<notin> unwritable (os (?s\<lparr>output_file := Some ''fresh.bin''\<rparr>))"
    by (simp add: startup_def demo_env_def demo_fs_def)
  from explicit_output_path
         [of "?s\<lparr>output_file := Some ''fresh.bin''\<rparr>" "''/a/b/result.bin''" "''fresh.bin''"] pre5
  have 5: "0 \<le> fst (open_output_file ''/a/b/result.bin'' True (?s\<lparr>output_file := Some ''fresh.bin''\<rparr>))
      \<and> ''fresh.bin'' \<in> existing (os (snd (open_output_file ''/a/b/result.bin'' True
           (?s\<lparr>output_file := Some ''fresh.bin''\<rparr>))))"
    by blast
  from 5 have fresh_fd: "0 \<le> fst (open_output_file ''/a/b/result.bin'' True
      (?s\<lparr>output_file := Some ''fresh.bin''\<rparr>))"
    and fresh_made: "''fresh.bin'' \<in> existing (os (snd (open_output_file ''/a/b/result.bin'' True
           (?s\<lparr>output_file := Some ''fresh.bin''\<rparr>))))"
    by blast+
  from 1 ex 2 3 4 nex fresh_fd fresh_made show ?thesis by (intro conjI)
qed

text \<open>
  C7.  When no secure transport context is available and the URL begins with \<^verbatim>\<open>https\<close>,
  \<^verbatim>\<open>main\<close> returns 1 having done nothing but print one message (the missing-SSL notice,
  or the usage text when an option was rejected first): no session object is created,
  no connection or request is made, and the file system is untouched.
\<close>

theorem no_ssl_fails_fast:
  assumes "\<not> ssl_loaded e" and "take 5 u = ''https''"
  shows "fst (main e opts [u]) = Exit 1
       \<and> (trace (snd (main e opts [u])) = [Stderr (Msg_no_ssl (progname e))]
          \<or> trace (snd (main e opts [u])) = [Stderr (Msg_usage (progname e))])
       \<and> silent (trace (snd (main e opts [u]))) = []
       \<and> os (snd (main e opts [u])) = fs0 e"
proof (cases "getopt_loop opts (startup e)")
  case (Inl s)
  then have "getopt_loop opts (startup e) = Inr s \<or> getopt_loop opts (startup e) = Inl s"
    by simp
  note fr = getopt_loop_frame [OF this] getopt_loop_trace_no_ssl [OF this]
  have tr: "trace s = []" and fs: "os s = fs0 e"
    using fr assms(1) by (simp_all add: startup_def)
  have "main e opts [u] = (Exit 1, emit (Stderr (Msg_usage (progname e))) s)"
    using Inl by (simp add: main_def main_setup_def usage_def)
  with tr fs show ?thesis by (simp add: emit_def)
next
  case (Inr s)
  then have "getopt_loop opts (startup e) = Inr s \<or> getopt_loop opts (startup e) = Inl s"
    by simp
  note fr = getopt_loop_frame [OF this] getopt_loop_trace_no_ssl [OF this]
  have tr: "trace s = []" and fs: "os s = fs0 e" and ssl: "\<not> ssl_ctx s"
    using fr assms(1) by (simp_all add: startup_def)
  have "main e opts [u] = (Exit 1, emit (Stderr (Msg_no_ssl (progname e))) s)"
    using Inr ssl assms(2) by (simp add: main_def main_setup_def main_session_def no_ssl_def)
  with tr fs show ?thesis by (simp add: emit_def)
qed

text \<open>An instance of C7: an \<^verbatim>\<open>https\<close> URL with \<^verbatim>\<open>-q -O out\<close> and no SSL library.\<close>

theorem no_ssl_fails_fast_witness:
  "\<not> ssl_loaded (demo_env [Header_done 200 [] None, Data_eof])
   \<and> take 5 ''https://example.org/a/b/data.bin'' = ''https''
   \<and> fst (main (demo_env [Header_done 200 [] None, Data_eof]) [Opt_q, Opt_O ''out'']
        [''https://example.org/a/b/data.bin'']) = Exit 1
   \<and> silent (trace (snd (main (demo_env [Header_done 200 [] None, Data_eof]) [Opt_q, Opt_O ''out'']
        [''https://example.org/a/b/data.bin'']))) = []"
proof -
  have a: "\<not> ssl_loaded (demo_env [Header_done 200 [] None, Data_eof])"
    by (simp add: demo_env_def)
  have b: "take 5 ''https://example.org/a/b/data.bin'' = ''https''"
    by simp
  from no_ssl_fails_fast [OF a b, of "[Opt_q, Opt_O ''out'']"] a b
  show ?thesis by simp
qed

text \<open>
  C8 (as amended).  \<^verbatim>\<open>error_ret\<close> starts as 0.  In a run of \<^verbatim>\<open>main\<close> in which no
  certificate error can be ignored (no \<^verbatim>\<open>--no-check-certificate\<close>, or no certificate
  error among the notifications) it is assigned at most once.  An ignored certificate
  error assigns it twice in one call, 5 and then 0.
\<close>

theorem exit_status_assignments:
  "error_ret (startup e) = 0
   \<and> (Opt_no_check_certificate \<notin> set opts
        \<or> (Error UCLIENT_ERROR_SSL_INVALID_CERT \<notin> set (notifications e)
           \<and> Error UCLIENT_ERROR_SSL_CN_MISMATCH \<notin> set (notifications e))
      \<longrightarrow> length (assignments (trace (snd (main e opts args)))) \<le> 1)
   \<and> (\<not> verify s \<and> (code = UCLIENT_ERROR_SSL_INVALID_CERT \<or> code = UCLIENT_ERROR_SSL_CN_MISMATCH)
      \<longrightarrow> assignments (trace (handle_uclient_error code s)) = assignments (trace s) @ [5, 0])"
proof (intro conjI impI)
  show "error_ret (startup e) = 0" by (simp add: startup_def)
next
  assume "\<not> verify s \<and> (code = UCLIENT_ERROR_SSL_INVALID_CERT \<or> code = UCLIENT_ERROR_SSL_CN_MISMATCH)"
  then show "assignments (trace (handle_uclient_error code s)) = assignments (trace s) @ [5, 0]"
    by (cases "quiet s") (auto simp: cb_defs proj_append)
next
  assume h: "Opt_no_check_certificate \<notin> set opts
        \<or> (Error UCLIENT_ERROR_SSL_INVALID_CERT \<notin> set (notifications e)
           \<and> Error UCLIENT_ERROR_SSL_CN_MISMATCH \<notin> set (notifications e))"
  show "length (assignments (trace (snd (main e opts args)))) \<le> 1"
  proof (cases "main_setup e opts args")
    case (Inl p)
    obtain r s1 where p: "p = (r, s1)" by (cases p)
    from Inl p main_setup_early [of e opts args r s1] show ?thesis
      by (simp add: main_def)
  next
    case (Inr s0)
    note fresh = main_setup_fresh [OF Inr]
    let ?I = "\<lambda>t::st. verify t = verify s0
                 \<and> (running t \<longrightarrow> assignments (trace t) = [])
                 \<and> length (assignments (trace t)) \<le> 1"
    have inv: "?I (uloop_run (notifications e) s0)"
    proof (rule uloop_run_invariant_on [where I = ?I])
      show "?I s0" using fresh by simp
    next
      fix ev t
      assume ev: "ev \<in> set (notifications e)" and I: "?I t" and run: "running t"
      have ok: "verify t \<or> (ev \<noteq> Error UCLIENT_ERROR_SSL_INVALID_CERT
                        \<and> ev \<noteq> Error UCLIENT_ERROR_SSL_CN_MISMATCH)"
        using h ev I fresh by auto
      from I run have "assignments (trace t) = []" by simp
      with ok deliver_assign_once [of t ev] deliver_config [of ev t] I
      show "?I (deliver ev t)" by simp
    qed
    show ?thesis
      using inv main_finish_frame [of "uloop_run (notifications e) s0"]
      by (simp add: main_entered [OF Inr])
  qed
qed

text \<open>
  C8 as stated fails: with \<^verbatim>\<open>--no-check-certificate\<close>, a certificate error followed by
  the end of the stream, \<^verbatim>\<open>error_ret\<close> is assigned twice before \<^verbatim>\<open>main\<close> returns 0.
\<close>

theorem exit_status_assigned_twice_counterexample:
  "fst (main (demo_env [Error UCLIENT_ERROR_SSL_INVALID_CERT, Data_eof])
       [Opt_no_check_certificate] [demo_url]) = Exit 0
   \<and> assignments (trace (snd (main (demo_env [Error UCLIENT_ERROR_SSL_INVALID_CERT, Data_eof])
       [Opt_no_check_certificate] [demo_url]))) = [5, 0]
   \<and> \<not> length (assignments (trace (snd (main (demo_env [Error UCLIENT_ERROR_SSL_INVALID_CERT, Data_eof])
       [Opt_no_check_certificate] [demo_url])))) \<le> 1"
  by code_simp

text \<open>
  An instance of C8: the same notifications with validation on give one assignment; the
  error handler with validation off gives two.
\<close>

theorem exit_status_assignments_witness:
  "Opt_no_check_certificate \<notin> set []
   \<and> length (assignments (trace (snd (main (demo_env [Error UCLIENT_ERROR_SSL_INVALID_CERT, Data_eof])
       [] [demo_url])))) \<le> 1
   \<and> assignments (trace (snd (main (demo_env [Error UCLIENT_ERROR_SSL_INVALID_CERT, Data_eof])
       [] [demo_url]))) = [5]
   \<and> \<not> verify (demo_start False)
   \<and> assignments (trace (handle_uclient_error UCLIENT_ERROR_SSL_CN_MISMATCH (demo_start False))) =
       [5, 0]"
proof -
  let ?e = "demo_env [Error UCLIENT_ERROR_SSL_INVALID_CERT, Data_eof]"
  note T = exit_status_assignments [of ?e "[]" "[demo_url]" "demo_start False"
             UCLIENT_ERROR_SSL_CN_MISMATCH]
  have n: "Opt_no_check_certificate \<notin> set []" by simp
  from T n have 1: "length (assignments (trace (snd (main ?e [] [demo_url])))) \<le> 1"
    by blast
  have 2: "assignments (trace (snd (main ?e [] [demo_url]))) = [5]"
    by code_simp
  have v: "\<not> verify (demo_start False)"
    by code_simp
  have z: "assignments (trace (demo_start False)) = []"
    by code_simp
  from T v have "assignments (trace (handle_uclient_error UCLIENT_ERROR_SSL_CN_MISMATCH
                   (demo_start False))) = assignments (trace (demo_start False)) @ [5, 0]"
    by blast
  with z have 3: "assignments (trace (handle_uclient_error UCLIENT_ERROR_SSL_CN_MISMATCH
                   (demo_start False))) = [5, 0]"
    by simp
  from n 1 2 v 3 show ?thesis by (intro conjI)
qed

text \<open>
  C9.  Two runs of \<^verbatim>\<open>main\<close> that differ only in one \<^verbatim>\<open>-q\<close> among the options end the
  same way (the same return value, or both still waiting in the loop), write the same
  bytes to the same descriptors, make the same calls apart from printing to standard
  error, and leave the same files behind.
\<close>

theorem quiet_only_silences:
  "fst (main e (o1 @ Opt_q # o2) args) = fst (main e (o1 @ o2) args)
   \<and> sink_writes (trace (snd (main e (o1 @ Opt_q # o2) args))) =
       sink_writes (trace (snd (main e (o1 @ o2) args)))
   \<and> silent (trace (snd (main e (o1 @ Opt_q # o2) args))) =
       silent (trace (snd (main e (o1 @ o2) args)))
   \<and> os (snd (main e (o1 @ Opt_q # o2) args)) = os (snd (main e (o1 @ o2) args))"
proof -
  let ?a = "main e (o1 @ Opt_q # o2) args"
  let ?b = "main e (o1 @ o2) args"
  have eq: "apsnd obs ?a = apsnd obs ?b"
    by (intro main_obs main_setup_obs getopt_loop_with_q)
  then have 1: "fst ?a = fst ?b" and o: "obs (snd ?a) = obs (snd ?b)"
    by (simp_all add: apsnd_def map_prod_def split_beta)
  from o have 3: "silent (trace (snd ?a)) = silent (trace (snd ?b))"
    using obs_fields(11) [of "snd ?a"] obs_fields(11) [of "snd ?b"] by simp
  from o have 4: "os (snd ?a) = os (snd ?b)"
    using obs_fields(8) [of "snd ?a"] obs_fields(8) [of "snd ?b"] by simp
  from 3 have 2: "sink_writes (trace (snd ?a)) = sink_writes (trace (snd ?b))"
    using sink_writes_silent [of "trace (snd ?a)"] sink_writes_silent [of "trace (snd ?b)"]
    by simp
  from 1 2 3 4 show ?thesis by (intro conjI)
qed

text \<open>An instance of C9: a successful download and a 404, each with \<^verbatim>\<open>-q\<close>.\<close>

theorem quiet_only_silences_witness:
  "fst (main (demo_env [Header_done 200 [] None, Data_read ''body'', Data_eof]) [Opt_q]
       [demo_url]) = Exit 0
   \<and> sink_writes (trace (snd (main (demo_env [Header_done 200 [] None, Data_read ''body'', Data_eof])
       [Opt_q] [demo_url]))) = [(3, ''body'')]
   \<and> fst (main (demo_env [Header_done 404 [] None]) [Opt_q] [demo_url]) = Exit 8"
proof -
  let ?e = "demo_env [Header_done 200 [] None, Data_read ''body'', Data_eof]"
  have a: "fst (main ?e [] [demo_url]) = Exit 0"
    by code_simp
  have b: "sink_writes (trace (snd (main ?e [] [demo_url]))) = [(3, ''body'')]"
    by code_simp
  have c: "fst (main (demo_env [Header_done 404 [] None]) [] [demo_url]) = Exit 8"
    by code_simp
  from quiet_only_silences [of ?e "[]" "[]" "[demo_url]"] a b
  have 1: "fst (main ?e [Opt_q] [demo_url]) = Exit 0
         \<and> sink_writes (trace (snd (main ?e [Opt_q] [demo_url]))) = [(3, ''body'')]"
    by simp
  from quiet_only_silences [of "demo_env [Header_done 404 [] None]" "[]" "[]" "[demo_url]"] c
  have 2: "fst (main (demo_env [Header_done 404 [] None]) [Opt_q] [demo_url]) = Exit 8"
    by simp
  from 1 2 show ?thesis by simp
qed

text \<open>
  C10.  With no sink open (\<^verbatim>\<open>output_fd < 0\<close>) \<^verbatim>\<open>example_read_data\<close> returns the state
  unchanged: nothing is read from the engine and nothing is written.  Hence, in a run
  of \<^verbatim>\<open>main\<close>, bytes are read or written only after a header notification with
  status 200 or 204 has left a sink open.
\<close>

theorem read_without_sink:
  "(output_fd s < 0 \<longrightarrow> example_read_data s = s)
   \<and> (main_setup e opts args = Inr s0
        \<and> (pulled (trace (uloop_run es s0)) \<noteq> [] \<or> sink_writes (trace (uloop_run es s0)) \<noteq> [])
      \<longrightarrow> (\<exists>es1 code hdrs redir es2.
             es = es1 @ Header_done code hdrs redir # es2 \<and> (code = 200 \<or> code = 204)
             \<and> 0 \<le> output_fd (uloop_run (es1 @ [Header_done code hdrs redir]) s0)))"
proof (intro conjI impI)
  assume "output_fd s < 0"
  then show "example_read_data s = s" by (simp add: example_read_data_def)
next
  assume a: "main_setup e opts args = Inr s0
        \<and> (pulled (trace (uloop_run es s0)) \<noteq> [] \<or> sink_writes (trace (uloop_run es s0)) \<noteq> [])"
  then have entry: "main_setup e opts args = Inr s0" by simp
  note fresh = main_setup_fresh [OF entry]
  have closed: "output_fd s0 < 0" using fresh by simp
  have "pulled (trace (uloop_run es s0)) \<noteq> pulled (trace s0)
         \<or> sink_writes (trace (uloop_run es s0)) \<noteq> sink_writes (trace s0)"
    using a fresh by simp
  with closed
  show "\<exists>es1 code hdrs redir es2.
             es = es1 @ Header_done code hdrs redir # es2 \<and> (code = 200 \<or> code = 204)
             \<and> 0 \<le> output_fd (uloop_run (es1 @ [Header_done code hdrs redir]) s0)"
    by (rule uloop_run_first_open)
qed

text \<open>
  An instance of C10: data arriving before any response stays with the engine; data
  arriving after a 200 response is written to descriptor 3.
\<close>

theorem read_without_sink_witness:
  "output_fd (deliver (Data_read ''early'') (demo_start True)) < 0
   \<and> trace (deliver (Data_read ''early'') (demo_start True)) = trace (demo_start True)
   \<and> pending (uc (deliver (Data_read ''early'') (demo_start True))) = ''early''
   \<and> sink_writes (trace (uloop_run [Header_done 200 [] None, Data_read ''body''] (demo_start True)))
       = [(3, ''body'')]
   \<and> (\<exists>es1 code hdrs redir es2.
         [Header_done 200 [] None, Data_read ''body''] = es1 @ Header_done code hdrs redir # es2
         \<and> 0 \<le> output_fd (uloop_run (es1 @ [Header_done code hdrs redir]) (demo_start True)))"
proof -
  let ?s = "(demo_start True)\<lparr>uc := (uc (demo_start True))\<lparr>pending := pending (uc (demo_start True)) @ ''early''\<rparr>\<rparr>"
  have c: "output_fd ?s < 0" by code_simp
  from read_without_sink [of ?s] c have same: "example_read_data ?s = ?s"
    by blast
  have d: "deliver (Data_read ''early'') (demo_start True) = ?s"
    using same by simp
  have 1: "output_fd (deliver (Data_read ''early'') (demo_start True)) < 0"
    unfolding d by (rule c)
  have 2: "trace (deliver (Data_read ''early'') (demo_start True)) = trace (demo_start True)"
    unfolding d by simp
  have 3: "pending (uc (deliver (Data_read ''early'') (demo_start True))) = ''early''"
    unfolding d by code_simp
  have 4: "sink_writes (trace (uloop_run [Header_done 200 [] None, Data_read ''body''] (demo_start True)))
       = [(3, ''body'')]"
    by code_simp
  have nz: "sink_writes (trace (uloop_run [Header_done 200 [] None, Data_read ''body'']
               (demo_start True))) \<noteq> []"
    unfolding 4 by simp
  have pre: "main_setup (demo_env []) [] [demo_url] = Inr (demo_start True)
      \<and> (pulled (trace (uloop_run [Header_done 200 [] None, Data_read ''body''] (demo_start True))) \<noteq> []
         \<or> sink_writes (trace (uloop_run [Header_done 200 [] None, Data_read ''body'']
               (demo_start True))) \<noteq> [])"
    by (intro conjI disjI2) (rule demo_setup_checked, rule nz)
  from read_without_sink [of ?s "demo_env []" "[]" "[demo_url]" "demo_start True"
         "[Header_done 200 [] None, Data_read ''body'']"]
  have imp: "main_setup (demo_env []) [] [demo_url] = Inr (demo_start True)
      \<and> (pulled (trace (uloop_run [Header_done 200 [] None, Data_read ''body''] (demo_start True))) \<noteq> []
         \<or> sink_writes (trace (uloop_run [Header_done 200 [] None, Data_read ''body'']
               (demo_start True))) \<noteq> [])
      \<longrightarrow> (\<exists>es1 code hdrs redir es2.
             [Header_done 200 [] None, Data_read ''body''] = es1 @ Header_done code hdrs redir # es2
             \<and> (code = 200 \<or> code = 204)
             \<and> 0 \<le> output_fd (uloop_run (es1 @ [Header_done code hdrs redir]) (demo_start True)))"
    by (rule conjunct2)
  from imp pre have "\<exists>es1 code hdrs redir es2.
             [Header_done 200 [] None, Data_read ''body''] = es1 @ Header_done code hdrs redir # es2
             \<and> (code = 200 \<or> code = 204)
             \<and> 0 \<le> output_fd (uloop_run (es1 @ [Header_done code hdrs redir]) (demo_start True))"
    by (rule mp)
  then have 5: "\<exists>es1 code hdrs redir es2.
         [Header_done 200 [] None, Data_read ''body''] = es1 @ Header_done code hdrs redir # es2
         \<and> 0 \<le> output_fd (uloop_run (es1 @ [Header_done code hdrs redir]) (demo_start True))"
    by blast
  from 1 2 3 4 5 show ?thesis by (intro conjI)
qed

end
